theory Spec2Isabelle
  imports Main "HOL-Library.Word" "HOL-Library.AList"
begin

unbundle bit_operations_syntax

section \<open>Python values and exceptions\<close>

text \<open>
  The exceptions that the modelled code can raise.  \<open>InvalidAddrException\<close> is the
  class declared in \<^verbatim>\<open>engine.py\<close>; the others are Python's built-in exceptions,
  raised by subscripting \<^verbatim>\<open>None\<close>, by an index outside a sequence, by a byte value
  outside \<^verbatim>\<open>range(256)\<close> or a malformed number, by a failed \<^verbatim>\<open>assert\<close> and by a
  missing dictionary key.
\<close>

datatype error =
    InvalidAddrException int
  | TypeError
  | IndexError
  | ValueError
  | AssertionError
  | KeyError

type_synonym byte = "8 word"

text \<open>
  The position that a Python index \<open>i\<close> denotes in a sequence of length \<open>n\<close>: a
  negative index counts from the end, and there is none outside \<open>-n \<le> i < n\<close>.
\<close>

definition py_pos :: "nat \<Rightarrow> int \<Rightarrow> nat option" where
  "py_pos n i =
     (if 0 \<le> i \<and> i < int n then Some (nat i)
      else if - int n \<le> i \<and> i < 0 then Some (nat (int n + i))
      else None)"

text \<open>\<^verbatim>\<open>xs[i]\<close> and \<^verbatim>\<open>xs[i] = v\<close>; an index outside the sequence raises \<^verbatim>\<open>IndexError\<close>.\<close>

definition py_getitem :: "'a list \<Rightarrow> int \<Rightarrow> error + 'a" where
  "py_getitem xs i = (case py_pos (length xs) i of None \<Rightarrow> Inl IndexError | Some j \<Rightarrow> Inr (xs ! j))"

definition py_setitem :: "'a list \<Rightarrow> int \<Rightarrow> 'a \<Rightarrow> error + 'a list" where
  "py_setitem xs i v =
     (case py_pos (length xs) i of None \<Rightarrow> Inl IndexError | Some j \<Rightarrow> Inr (xs[j := v]))"

text \<open>
  \<^verbatim>\<open>xs[i] = v\<close> on a \<^verbatim>\<open>bytearray\<close> for a Python integer \<open>v\<close>: a value outside
  \<^verbatim>\<open>range(256)\<close> raises \<^verbatim>\<open>ValueError\<close> (CPython converts the value before it checks
  the index).
\<close>

definition bytearray_setitem :: "byte list \<Rightarrow> int \<Rightarrow> int \<Rightarrow> error + byte list" where
  "bytearray_setitem xs i v =
     (if 0 \<le> v \<and> v < 256 then py_setitem xs i (word_of_int v) else Inl ValueError)"

section \<open>The address space\<close>

text \<open>
  An area is the tuple \<^verbatim>\<open>(start, end, props, bytes, flags)\<close> built by \<^verbatim>\<open>add_area\<close>; the
  fields are named after the index constants \<^verbatim>\<open>START .. FLAGS\<close>.  The properties are
  opaque to the engine.
\<close>

record area =
  START :: int
  END :: int
  PROPS :: string
  BYTES :: "byte list"
  FLAGS :: "byte list"

definition UNK :: byte where "UNK = 0"
definition CODE :: byte where "CODE = 0x01"
definition CODE_CONT :: byte where "CODE_CONT = 0x02"
definition DATA :: byte where "DATA = 0x04"
definition DATA_CONT :: byte where "DATA_CONT = 0x08"
definition STR_flag :: byte where "STR_flag = 0x10"

text \<open>
  A label is stored either as a Python \<^verbatim>\<open>int\<close> (the auto-label marker, the address
  itself) or as a \<^verbatim>\<open>str\<close>.
\<close>

datatype label = LInt int | LStr string

text \<open>
  The dictionaries are association lists in insertion order with distinct keys:
  \<^verbatim>\<open>resolve_label\<close> iterates over \<^verbatim>\<open>labels.items()\<close>, so the order is observable.
  \<^verbatim>\<open>d[k] = v\<close> is \<^const>\<open>AList.update\<close>: an existing key keeps its place, a new one
  goes to the end.

  \<^verbatim>\<open>last_area\<close> refers to one of the tuple objects of \<^verbatim>\<open>area_list\<close>, whose byte arrays
  are mutated in place; the reference is modelled as the position of that object in
  \<^verbatim>\<open>area_list\<close> (areas are only ever appended).  For the same reason \<^verbatim>\<open>addr2area\<close>
  returns the position of the area it found.
\<close>

record address_space =
  area_list :: "area list"
  labels :: "(int \<times> label) list"
  comments :: "(int \<times> string) list"
  xrefs :: "(int \<times> (int \<times> string) list) list"
  arg_props :: "(int \<times> (int \<times> (string \<times> int) list) list) list"
  last_area :: "nat option"

definition AddressSpace :: address_space where
  "AddressSpace = \<lparr>area_list = [], labels = [], comments = [], xrefs = [],
     arg_props = [], last_area = None\<rparr>"

definition add_area :: "address_space \<Rightarrow> int \<Rightarrow> int \<Rightarrow> string \<Rightarrow> error + address_space" where
  "add_area s start end' props =
     (let sz = end' - start + 1 in
      if sz < 0 then Inl ValueError
      else Inr (s\<lparr>area_list := area_list s @
             [\<lparr>START = start, END = end', PROPS = props,
               BYTES = replicate (nat sz) 0, FLAGS = replicate (nat sz) 0\<rparr>]\<rparr>))"

text \<open>The \<^verbatim>\<open>for a in self.area_list\<close> loop of \<^verbatim>\<open>addr2area\<close>; \<open>n\<close> counts the position.\<close>

fun scan_areas :: "area list \<Rightarrow> nat \<Rightarrow> int \<Rightarrow> (int \<times> nat) option" where
  "scan_areas [] n addr = None"
| "scan_areas (a # as) n addr =
     (if START a \<le> addr \<and> addr \<le> END a then Some (addr - START a, n)
      else scan_areas as (Suc n) addr)"

definition addr2area :: "address_space \<Rightarrow> int \<Rightarrow> (int \<times> nat) option \<times> address_space" where
  "addr2area s addr =
     (case (case last_area s of
              None \<Rightarrow> None
            | Some i \<Rightarrow>
                (let a = area_list s ! i in
                 if START a \<le> addr \<and> addr \<le> END a then Some (addr - START a, i) else None)) of
        Some hit \<Rightarrow> (Some hit, s)
      | None \<Rightarrow>
          (case scan_areas (area_list s) 0 addr of
             None \<Rightarrow> (None, s)
           | Some (off, i) \<Rightarrow> (Some (off, i), s\<lparr>last_area := Some i\<rparr>)))"

definition is_valid_addr :: "address_space \<Rightarrow> int \<Rightarrow> bool \<times> address_space" where
  "is_valid_addr s addr = (case addr2area s addr of (r, s') \<Rightarrow> (r \<noteq> None, s'))"

definition get_byte :: "address_space \<Rightarrow> int \<Rightarrow> (error + byte) \<times> address_space" where
  "get_byte s addr =
     (case addr2area s addr of
        (None, s') \<Rightarrow> (Inl (InvalidAddrException addr), s')
      | (Some (off, i), s') \<Rightarrow> (py_getitem (BYTES (area_list s' ! i)) off, s'))"

text \<open>
  \<^verbatim>\<open>xs[lo:hi]\<close> for integer bounds: negative bounds count from the end and both are
  clipped to the sequence.
\<close>

definition py_slice :: "'a list \<Rightarrow> int \<Rightarrow> int \<Rightarrow> 'a list" where
  "py_slice xs lo hi =
     (let n = int (length xs);
          l = (if lo < 0 then max 0 (n + lo) else min lo n);
          h = (if hi < 0 then max 0 (n + hi) else min hi n)
      in take (nat (h - l)) (drop (nat l) xs))"

definition get_bytes :: "address_space \<Rightarrow> int \<Rightarrow> int \<Rightarrow> (error + byte list) \<times> address_space" where
  "get_bytes s addr sz =
     (case addr2area s addr of
        (None, s') \<Rightarrow> (Inl (InvalidAddrException addr), s')
      | (Some (off, i), s') \<Rightarrow> (Inr (py_slice (BYTES (area_list s' ! i)) off (off + sz)), s'))"

text \<open>
  The loop of \<^verbatim>\<open>get_data\<close> over \<^verbatim>\<open>range(sz)\<close>.  There is no \<^verbatim>\<open>area is None\<close> test in
  \<^verbatim>\<open>get_data\<close>: the first iteration subscripts \<^verbatim>\<open>area\<close>, which raises \<^verbatim>\<open>TypeError\<close>
  when no area was found.
\<close>

fun get_data_loop :: "area option \<Rightarrow> int \<Rightarrow> nat list \<Rightarrow> int \<Rightarrow> error + int" where
  "get_data_loop area off [] val = Inr val"
| "get_data_loop area off (i # is) val =
     (case area of
        None \<Rightarrow> Inl TypeError
      | Some a \<Rightarrow>
          (case py_getitem (BYTES a) (off + int i) of
             Inl e \<Rightarrow> Inl e
           | Inr b \<Rightarrow> get_data_loop area off is (val OR push_bit (8 * i) (uint b))))"

definition get_data :: "address_space \<Rightarrow> int \<Rightarrow> int \<Rightarrow> (error + int) \<times> address_space" where
  "get_data s addr sz =
     (case addr2area s addr of
        (None, s') \<Rightarrow> (get_data_loop None 0 [0..<nat sz] 0, s')
      | (Some (off, i), s') \<Rightarrow>
          (get_data_loop (Some (area_list s' ! i)) off [0..<nat sz] 0, s'))"

definition get_flags :: "address_space \<Rightarrow> int \<Rightarrow> (error + byte) \<times> address_space" where
  "get_flags s addr =
     (case addr2area s addr of
        (None, s') \<Rightarrow> (Inl (InvalidAddrException addr), s')
      | (Some (off, i), s') \<Rightarrow> (py_getitem (FLAGS (area_list s' ! i)) off, s'))"

text \<open>
  The loop \<^verbatim>\<open>while flags[off] == f: off += 1; sz += 1\<close> of \<^verbatim>\<open>get_unit_size\<close> (and of
  the data and string branches of \<^verbatim>\<open>render_partial\<close>).  It has no bound of its own: it
  ends at the first other flag, or with \<^verbatim>\<open>IndexError\<close> behind the last flag.
\<close>

function cont_scan :: "byte list \<Rightarrow> byte \<Rightarrow> int \<Rightarrow> int \<Rightarrow> error + int" where
  "cont_scan flags f off sz =
     (case py_getitem flags off of
        Inl e \<Rightarrow> Inl e
      | Inr x \<Rightarrow> if x = f then cont_scan flags f (off + 1) (sz + 1) else Inr sz)"
  by pat_completeness auto
termination
  by (relation "measure (\<lambda>(flags, f, off, sz). nat (int (length flags) - off))")
     (auto simp: py_getitem_def py_pos_def split: if_splits)

declare cont_scan.simps [simp del]

definition get_unit_size :: "address_space \<Rightarrow> int \<Rightarrow> (error + int) \<times> address_space" where
  "get_unit_size s addr =
     (case addr2area s addr of
        (None, s') \<Rightarrow> (Inl TypeError, s')
      | (Some (off, i), s') \<Rightarrow>
          (let flags = FLAGS (area_list s' ! i) in
           (case py_getitem flags off of
              Inl e \<Rightarrow> Inl e
            | Inr h \<Rightarrow>
                if h = CODE then cont_scan flags CODE_CONT (off + 1) 1
                else if h = DATA \<or> h = STR_flag then cont_scan flags DATA_CONT (off + 1) 1
                else Inr 1), s'))"

function adjust_offset_reverse :: "int \<Rightarrow> area \<Rightarrow> error + int" where
  "adjust_offset_reverse off area =
     (if off > 0 then
        (case py_getitem (FLAGS area) off of
           Inl e \<Rightarrow> Inl e
         | Inr x \<Rightarrow>
             if x = CODE_CONT \<or> x = DATA_CONT then adjust_offset_reverse (off - 1) area
             else Inr off)
      else Inr off)"
  by pat_completeness auto
termination
  by (relation "measure (\<lambda>(off, area). nat off)") auto

declare adjust_offset_reverse.simps [simp del]

text \<open>
  The flag-writing loops run over \<^verbatim>\<open>range(sz - 1)\<close>.  They return the flags as they are
  when the loop ends, together with the exception that ended it, if any: a raise in the
  middle leaves the earlier writes in place.
\<close>

fun set_loop :: "byte list \<Rightarrow> int \<Rightarrow> int \<Rightarrow> nat list \<Rightarrow> byte list \<times> error option" where
  "set_loop flags off rest_fl [] = (flags, None)"
| "set_loop flags off rest_fl (i # is) =
     (case bytearray_setitem flags (off + int i) rest_fl of
        Inl e \<Rightarrow> (flags, Some e)
      | Inr flags' \<Rightarrow> set_loop flags' off rest_fl is)"

definition raise_opt :: "error option \<Rightarrow> error + unit" where
  "raise_opt e = (case e of None \<Rightarrow> Inr () | Some x \<Rightarrow> Inl x)"

definition put_flags :: "address_space \<Rightarrow> nat \<Rightarrow> byte list \<Rightarrow> address_space" where
  "put_flags s i flags =
     s\<lparr>area_list := (area_list s)[i := (area_list s ! i)\<lparr>FLAGS := flags\<rparr>]\<rparr>"

definition set_flags ::
  "address_space \<Rightarrow> int \<Rightarrow> int \<Rightarrow> int \<Rightarrow> int \<Rightarrow> (error + unit) \<times> address_space" where
  "set_flags s addr sz head_fl rest_fl =
     (case addr2area s addr of
        (None, s') \<Rightarrow> (Inl TypeError, s')
      | (Some (off, i), s') \<Rightarrow>
          (case bytearray_setitem (FLAGS (area_list s' ! i)) off head_fl of
             Inl e \<Rightarrow> (Inl e, s')
           | Inr flags1 \<Rightarrow>
               (case set_loop flags1 (off + 1) rest_fl [0..<nat (sz - 1)] of
                  (flags2, e) \<Rightarrow> (raise_opt e, put_flags s' i flags2))))"

definition make_undefined :: "address_space \<Rightarrow> int \<Rightarrow> int \<Rightarrow> (error + unit) \<times> address_space" where
  "make_undefined s addr sz = set_flags s addr sz (uint UNK) (uint UNK)"

text \<open>\<^verbatim>\<open>flags[i] |= v\<close>: read, or, write back.\<close>

definition bytearray_ior :: "byte list \<Rightarrow> int \<Rightarrow> byte \<Rightarrow> error + byte list" where
  "bytearray_ior xs i v =
     (case py_getitem xs i of Inl e \<Rightarrow> Inl e | Inr b \<Rightarrow> py_setitem xs i (b OR v))"

fun ior_loop :: "byte list \<Rightarrow> int \<Rightarrow> byte \<Rightarrow> nat list \<Rightarrow> byte list \<times> error option" where
  "ior_loop flags off v [] = (flags, None)"
| "ior_loop flags off v (i # is) =
     (case bytearray_ior flags (off + int i) v of
        Inl e \<Rightarrow> (flags, Some e)
      | Inr flags' \<Rightarrow> ior_loop flags' off v is)"

definition make_code :: "address_space \<Rightarrow> int \<Rightarrow> int \<Rightarrow> (error + unit) \<times> address_space" where
  "make_code s addr sz =
     (case addr2area s addr of
        (None, s') \<Rightarrow> (Inl TypeError, s')
      | (Some (off, i), s') \<Rightarrow>
          (case bytearray_ior (FLAGS (area_list s' ! i)) off CODE of
             Inl e \<Rightarrow> (Inl e, s')
           | Inr flags1 \<Rightarrow>
               (case ior_loop flags1 (off + 1) CODE_CONT [0..<nat (sz - 1)] of
                  (flags2, e) \<Rightarrow> (raise_opt e, put_flags s' i flags2))))"

definition make_data :: "address_space \<Rightarrow> int \<Rightarrow> int \<Rightarrow> (error + unit) \<times> address_space" where
  "make_data s addr sz =
     (case addr2area s addr of
        (None, s') \<Rightarrow> (Inl TypeError, s')
      | (Some (off, i), s') \<Rightarrow>
          (case bytearray_ior (FLAGS (area_list s' ! i)) off DATA of
             Inl e \<Rightarrow> (Inl e, s')
           | Inr flags1 \<Rightarrow>
               (case ior_loop flags1 (off + 1) DATA_CONT [0..<nat (sz - 1)] of
                  (flags2, e) \<Rightarrow> (raise_opt e, put_flags s' i flags2))))"

subsection \<open>Labels\<close>

text \<open>
  \<^verbatim>\<open>"%x" % n\<close> and \<^verbatim>\<open>"%08x" % n\<close>: lower-case hexadecimal digits; the sign of a negative
  number comes first and counts towards the width of eight, zeros fill the rest.
\<close>

definition hex_digit :: "nat \<Rightarrow> char" where
  "hex_digit d = ''0123456789abcdef'' ! d"

fun hex_of_nat :: "nat \<Rightarrow> string" where
  "hex_of_nat n = (if n < 16 then [hex_digit n] else hex_of_nat (n div 16) @ [hex_digit (n mod 16)])"

declare hex_of_nat.simps [simp del]

definition fmt_x :: "int \<Rightarrow> string" where
  "fmt_x n = (if n < 0 then ''-'' else []) @ hex_of_nat (nat \<bar>n\<bar>)"

definition fmt_08x :: "int \<Rightarrow> string" where
  "fmt_08x n =
     (let sign = (if n < 0 then ''-'' else []); ds = hex_of_nat (nat \<bar>n\<bar>)
      in sign @ replicate (8 - length sign - length ds) (CHR ''0'') @ ds)"

definition get_default_label_prefix :: "address_space \<Rightarrow> int \<Rightarrow> (error + string) \<times> address_space" where
  "get_default_label_prefix s ea =
     (case get_flags s ea of
        (Inl e, s') \<Rightarrow> (Inl e, s')
      | (Inr fl, s') \<Rightarrow>
          (Inr (if fl = CODE then ''loc_'' else if fl AND DATA \<noteq> 0 then ''dat_'' else ''unk_''), s'))"

definition get_default_label :: "address_space \<Rightarrow> int \<Rightarrow> (error + string) \<times> address_space" where
  "get_default_label s ea =
     (case get_default_label_prefix s ea of
        (Inl e, s') \<Rightarrow> (Inl e, s')
      | (Inr prefix, s') \<Rightarrow> (Inr (prefix @ fmt_08x ea), s'))"

text \<open>A prefix that is \<^verbatim>\<open>None\<close> or empty is the empty string here: both are false.\<close>

definition make_label :: "address_space \<Rightarrow> string \<Rightarrow> int \<Rightarrow> (error + unit) \<times> address_space" where
  "make_label s prefix ea =
     (if map_of (labels s) ea \<noteq> None then (Inr (), s)
      else if prefix = [] then
        (case get_default_label_prefix s ea of
           (Inl e, s') \<Rightarrow> (Inl e, s')
         | (Inr prefix', s') \<Rightarrow>
             (Inr (), s'\<lparr>labels := AList.update ea (LStr (prefix' @ fmt_08x ea)) (labels s')\<rparr>))
      else (Inr (), s\<lparr>labels := AList.update ea (LStr (prefix @ fmt_08x ea)) (labels s)\<rparr>))"

definition make_auto_label :: "address_space \<Rightarrow> int \<Rightarrow> address_space" where
  "make_auto_label s ea =
     (if map_of (labels s) ea \<noteq> None then s
      else s\<lparr>labels := AList.update ea (LInt ea) (labels s)\<rparr>)"

definition get_label :: "address_space \<Rightarrow> int \<Rightarrow> (error + string option) \<times> address_space" where
  "get_label s ea =
     (case map_of (labels s) ea of
        None \<Rightarrow> (Inr None, s)
      | Some (LInt label) \<Rightarrow>
          (case get_default_label_prefix s ea of
             (Inl e, s') \<Rightarrow> (Inl e, s')
           | (Inr prefix, s') \<Rightarrow> (Inr (Some (prefix @ fmt_08x label)), s'))
      | Some (LStr label) \<Rightarrow> (Inr (Some label), s))"

definition set_label :: "address_space \<Rightarrow> int \<Rightarrow> string \<Rightarrow> address_space" where
  "set_label s ea label = s\<lparr>labels := AList.update ea (LStr label) (labels s)\<rparr>"

text \<open>
  The loop of \<^verbatim>\<open>resolve_label\<close> over \<^verbatim>\<open>self.labels.items()\<close>, for a string \<open>label\<close>:
  a stored string is compared with it, a stored integer is not equal to any string and is
  compared through \<^verbatim>\<open>get_default_label\<close>.
\<close>

fun resolve_loop ::
  "address_space \<Rightarrow> (int \<times> label) list \<Rightarrow> string \<Rightarrow> (error + int option) \<times> address_space" where
  "resolve_loop s [] label = (Inr None, s)"
| "resolve_loop s ((ea, l) # items) label =
     (case l of
        LStr str \<Rightarrow> if str = label then (Inr (Some ea), s) else resolve_loop s items label
      | LInt n \<Rightarrow>
          (case get_default_label s n of
             (Inl e, s') \<Rightarrow> (Inl e, s')
           | (Inr d, s') \<Rightarrow> if d = label then (Inr (Some ea), s') else resolve_loop s' items label))"

definition resolve_label :: "address_space \<Rightarrow> string \<Rightarrow> (error + int option) \<times> address_space" where
  "resolve_label s label = resolve_loop s (labels s) label"

subsection \<open>Comments, operand properties, cross-references\<close>

definition get_comment :: "address_space \<Rightarrow> int \<Rightarrow> string option" where
  "get_comment s ea = map_of (comments s) ea"

definition set_comment :: "address_space \<Rightarrow> int \<Rightarrow> string \<Rightarrow> address_space" where
  "set_comment s ea comm = s\<lparr>comments := AList.update ea comm (comments s)\<rparr>"

definition dict_get_default :: "('k \<times> 'v list) list \<Rightarrow> 'k \<Rightarrow> 'v list" where
  "dict_get_default d k = (case map_of d k of None \<Rightarrow> [] | Some v \<Rightarrow> v)"

definition set_arg_prop :: "address_space \<Rightarrow> int \<Rightarrow> int \<Rightarrow> string \<Rightarrow> int \<Rightarrow> address_space" where
  "set_arg_prop s ea arg_no prop prop_val =
     (let arg_props' = dict_get_default (arg_props s) ea;
          props = dict_get_default arg_props' arg_no
      in s\<lparr>arg_props :=
             AList.update ea (AList.update arg_no (AList.update prop prop_val props) arg_props')
               (arg_props s)\<rparr>)"

definition get_arg_prop :: "address_space \<Rightarrow> int \<Rightarrow> int \<Rightarrow> string \<Rightarrow> int option" where
  "get_arg_prop s ea arg_no prop =
     map_of (dict_get_default (dict_get_default (arg_props s) ea) arg_no) prop"

definition add_xref :: "address_space \<Rightarrow> int \<Rightarrow> int \<Rightarrow> string \<Rightarrow> address_space" where
  "add_xref s from_ea to_ea type =
     s\<lparr>xrefs := AList.update to_ea
                  (AList.update from_ea type (dict_get_default (xrefs s) to_ea)) (xrefs s)\<rparr>"

definition del_xref :: "address_space \<Rightarrow> int \<Rightarrow> int \<Rightarrow> string \<Rightarrow> error + address_space" where
  "del_xref s from_ea to_ea type =
     (case map_of (xrefs s) to_ea of
        None \<Rightarrow> Inr s
      | Some d \<Rightarrow>
          (case map_of d from_ea of
             None \<Rightarrow> Inl KeyError
           | Some t \<Rightarrow>
               if t = type then Inr (s\<lparr>xrefs := AList.update to_ea (AList.delete from_ea d) (xrefs s)\<rparr>)
               else Inl AssertionError))"

definition get_xrefs :: "address_space \<Rightarrow> int \<Rightarrow> (int \<times> string) list option" where
  "get_xrefs s ea = map_of (xrefs s) ea"

section \<open>The processor plug-in\<close>

text \<open>
  The processor module is not part of the engine.  It is a parameter: three functions that
  may read and change everything a plug-in can reach, which is the address space and a
  state \<open>'p\<close> outside the address space (the \<^verbatim>\<open>cmd\<close> descriptor, the plug-in's own variables,
  and the other module globals of the engine).  \<^verbatim>\<open>init_cmd(ea)\<close> and
  \<^verbatim>\<open>_processor.cmd = Instruction(addr)\<close> are the address argument of the three functions.
  Every function may raise.
\<close>

type_synonym 'p world = "address_space \<times> 'p"

record 'p processor =
  ana :: "int \<Rightarrow> 'p world \<Rightarrow> (error + int) \<times> 'p world"
  emu :: "int \<Rightarrow> 'p world \<Rightarrow> (error + bool) \<times> 'p world"
  out :: "int \<Rightarrow> 'p world \<Rightarrow> (error + unit) \<times> 'p world"

section \<open>Analysis\<close>

text \<open>
  \<^verbatim>\<open>analisys_stack\<close> is a module global: \<^verbatim>\<open>add_entrypoint\<close> and
  \<^verbatim>\<open>AddressSpace.analisys_stack_push\<close> append to it, and any code that runs during
  \<^verbatim>\<open>analyze\<close> can call them: \<^verbatim>\<open>ana\<close>, \<^verbatim>\<open>emu\<close>, \<^verbatim>\<open>out\<close> and the callback.  For the analysis the
  state outside the address space is therefore a pair, the stack (its top at the end of
  the list) and the rest.
\<close>

type_synonym 'q aworld = "(int list \<times> 'q) world"

definition analisys_stack :: "'q aworld \<Rightarrow> int list" where
  "analisys_stack w = fst (snd w)"

definition set_stack :: "int list \<Rightarrow> 'q aworld \<Rightarrow> 'q aworld" where
  "set_stack stk w = (fst w, (stk, snd (snd w)))"

definition analisys_stack_push :: "int \<Rightarrow> 'q aworld \<Rightarrow> 'q aworld" where
  "analisys_stack_push ea w = set_stack (analisys_stack w @ [ea]) w"

definition add_entrypoint :: "int \<Rightarrow> 'q aworld \<Rightarrow> 'q aworld" where
  "add_entrypoint ea w = set_stack (analisys_stack w @ [ea]) w"

text \<open>
  The state of the loop of \<^verbatim>\<open>analyze\<close>.  \<open>limit\<close> starts at 40000 and is decremented only
  inside the loop, whose condition has just found it non-zero; it is a natural number for
  that reason.  Three fields are not variables of the source: \<open>calls\<close> records the
  arguments of the calls of \<^verbatim>\<open>callback\<close>, in order; \<open>decoded\<close> counts the iterations in
  which \<^verbatim>\<open>ana()\<close> returned a non-zero size; \<open>raised\<close> is the exception that left the loop,
  if any.
\<close>

record 'q analysis =
  limit :: nat
  cnt :: int
  calls :: "int list"
  decoded :: nat
  world :: "'q aworld"
  raised :: "error option"

text \<open>
  The loop \<^verbatim>\<open>while analisys_stack and limit\<close>.  The callback is a parameter like the
  plug-in: it may change the world and it may raise.  Since the code that the loop calls
  can push, the loop need not end: no result is \<open>None\<close>.
\<close>

partial_function (option) analyze_loop ::
  "(int list \<times> 'q) processor \<Rightarrow> (int \<Rightarrow> 'q aworld \<Rightarrow> (error + unit) \<times> 'q aworld) \<Rightarrow>
     'q analysis \<Rightarrow> 'q analysis option" where
  "analyze_loop P callback st =
     (if analisys_stack (world st) \<noteq> [] \<and> limit st \<noteq> 0 then
        (let ea = last (analisys_stack (world st));
             w0 = set_stack (butlast (analisys_stack (world st))) (world st) in
         (case ana P ea w0 of
            (Inl (InvalidAddrException a), w1) \<Rightarrow> analyze_loop P callback (st\<lparr>world := w1\<rparr>)
          | (Inl e, w1) \<Rightarrow> Some (st\<lparr>world := w1, raised := Some e\<rparr>)
          | (Inr insn_sz, w1) \<Rightarrow>
              if insn_sz \<noteq> 0 then
                (let st2 = st\<lparr>decoded := Suc (decoded st)\<rparr> in
                 (case emu P ea w1 of
                    (Inl e, w2) \<Rightarrow> Some (st2\<lparr>world := w2, raised := Some e\<rparr>)
                  | (Inr ok, w2) \<Rightarrow>
                      if \<not> ok then Some (st2\<lparr>world := w2, raised := Some AssertionError\<rparr>)
                      else
                        (case make_code (fst w2) ea insn_sz of
                           (Inl e, s3) \<Rightarrow> Some (st2\<lparr>world := (s3, snd w2), raised := Some e\<rparr>)
                         | (Inr u, s3) \<Rightarrow>
                             (case out P ea (s3, snd w2) of
                                (Inl e, w4) \<Rightarrow> Some (st2\<lparr>world := w4, raised := Some e\<rparr>)
                              | (Inr u', w4) \<Rightarrow>
                                  (let cnt' = cnt st2 + 1;
                                       st5 = st2\<lparr>limit := limit st2 - 1, cnt := cnt'\<rparr>
                                   in if cnt' mod 1000 = 0 then
                                        (case callback cnt' w4 of
                                           (Inl e, w5) \<Rightarrow>
                                             Some (st5\<lparr>world := w5, calls := calls st5 @ [cnt'],
                                                       raised := Some e\<rparr>)
                                         | (Inr u'', w5) \<Rightarrow>
                                             analyze_loop P callback
                                               (st5\<lparr>world := w5, calls := calls st5 @ [cnt']\<rparr>))
                                      else analyze_loop P callback (st5\<lparr>world := w4\<rparr>))))))
              else analyze_loop P callback (st\<lparr>world := w1\<rparr>)))
      else Some st)"

declare analyze_loop.simps [code]

definition analyze ::
  "(int list \<times> 'q) processor \<Rightarrow> (int \<Rightarrow> 'q aworld \<Rightarrow> (error + unit) \<times> 'q aworld) \<Rightarrow>
     'q aworld \<Rightarrow> 'q analysis option" where
  "analyze P callback w =
     analyze_loop P callback
       \<lparr>limit = 40000, cnt = 0, calls = [], decoded = 0, world = w, raised = None\<rparr>"

section \<open>Display objects and the rendering model\<close>

text \<open>
  The classes of display objects, with the arguments of their constructors.  An
  \<^verbatim>\<open>Instruction\<close> is built from its address alone; what the plug-in stores in it is not
  represented.  \<^verbatim>\<open>add_line\<close> sets \<^verbatim>\<open>subno\<close> on the object it appends, so a line is
  the object together with its \<^verbatim>\<open>subno\<close>.
\<close>

datatype disasm_obj =
    Instruction int
  | Data int int int
  | String int int string
  | Unknown int byte
  | Label int
  | Xref int int string
  | Literal int string

fun virtual :: "disasm_obj \<Rightarrow> bool" where
  "virtual (Instruction ea) = False"
| "virtual (Data ea sz val) = False"
| "virtual (String ea sz val) = False"
| "virtual (Unknown ea val) = False"
| "virtual (Label ea) = True"
| "virtual (Xref ea from_addr type) = True"
| "virtual (Literal ea str) = True"

record line =
  obj :: disasm_obj
  subno :: int

record model =
  m_lines :: "line list"
  m_cnt :: int
  m_subcnt :: int
  m_last_addr :: int
  m_addr2line :: "((int \<times> int) \<times> int) list"
  target_addr :: int
  target_subno :: int
  target_addr_lineno_0 :: int
  target_addr_lineno :: int
  target_addr_lineno_real :: int

definition Model :: "int \<Rightarrow> int \<Rightarrow> model" where
  "Model target target_sub =
     \<lparr>m_lines = [], m_cnt = 0, m_subcnt = 0, m_last_addr = -1, m_addr2line = [],
      target_addr = target, target_subno = target_sub, target_addr_lineno_0 = -1,
      target_addr_lineno = -1, target_addr_lineno_real = -1\<rparr>"

definition add_line :: "model \<Rightarrow> int \<Rightarrow> disasm_obj \<Rightarrow> model" where
  "add_line m addr ln =
     (let m1 = (if addr \<noteq> m_last_addr m then m\<lparr>m_last_addr := addr, m_subcnt := 0\<rparr> else m);
          m2 = (if addr = target_addr m1 then
                  (let a = (if m_subcnt m1 = 0 then m1\<lparr>target_addr_lineno_0 := m_cnt m1\<rparr> else m1);
                       b = (if m_subcnt a = target_subno a then a\<lparr>target_addr_lineno := m_cnt a\<rparr>
                            else a)
                   in if \<not> virtual ln then b\<lparr>target_addr_lineno_real := m_cnt b\<rparr> else b)
                else m1);
          m3 = m2\<lparr>m_lines := m_lines m2 @ [\<lparr>obj = ln, subno = m_subcnt m2\<rparr>],
                  m_addr2line := AList.update (addr, m_subcnt m2) (m_cnt m2) (m_addr2line m2)\<rparr>;
          m4 = (if \<not> virtual ln then
                  m3\<lparr>m_addr2line := AList.update (addr, -1) (m_cnt m3) (m_addr2line m3)\<rparr>
                else m3)
      in m4\<lparr>m_cnt := m_cnt m4 + 1, m_subcnt := m_subcnt m4 + 1\<rparr>)"

definition addr2line_no :: "model \<Rightarrow> int \<Rightarrow> int option" where
  "addr2line_no m addr = map_of (m_addr2line m) (addr, -1)"

text \<open>The loop over \<^verbatim>\<open>sorted(xrefs.keys())\<close> that adds one \<^verbatim>\<open>Xref\<close> line per source.\<close>

fun add_xref_lines :: "model \<Rightarrow> int \<Rightarrow> (int \<times> string) list \<Rightarrow> int list \<Rightarrow> error + model" where
  "add_xref_lines m addr xs [] = Inr m"
| "add_xref_lines m addr xs (from_addr # rest) =
     (case map_of xs from_addr of
        None \<Rightarrow> Inl KeyError
      | Some t \<Rightarrow> add_xref_lines (add_line m addr (Xref addr from_addr t)) addr xs rest)"

text \<open>
  The loop of the string branch: it collects the characters of the bytes under the
  continuation flags, and like \<^const>\<open>cont_scan\<close> it ends only at another flag or with
  \<^verbatim>\<open>IndexError\<close>.
\<close>

function str_scan ::
  "byte list \<Rightarrow> byte list \<Rightarrow> int \<Rightarrow> int \<Rightarrow> string \<Rightarrow> error + int \<times> string" where
  "str_scan flags bytes j sz str =
     (case py_getitem flags j of
        Inl e \<Rightarrow> Inl e
      | Inr x \<Rightarrow>
          if x = DATA_CONT then
            (case py_getitem bytes j of
               Inl e \<Rightarrow> Inl e
             | Inr b \<Rightarrow> str_scan flags bytes (j + 1) (sz + 1) (str @ [char_of (unat b)]))
          else Inr (sz, str))"
  by pat_completeness auto
termination
  by (relation "measure (\<lambda>(flags, bytes, j, sz, str). nat (int (length flags) - j))")
     (auto simp: py_getitem_def py_pos_def split: if_splits)

declare str_scan.simps [simp del]

text \<open>
  One iteration of the inner loop of \<^verbatim>\<open>render_partial\<close>, for the area at position \<open>k\<close>
  of the area list and the offset \<open>i\<close>, in its three parts and then as a whole.  First
  the cross-reference lines: \<^verbatim>\<open>xrefs = get_xrefs(addr)\<close>, and if the dictionary is not
  empty one line per source address.
\<close>

definition xref_lines :: "address_space \<Rightarrow> model \<Rightarrow> int \<Rightarrow> error + model" where
  "xref_lines s m addr =
     (case get_xrefs s addr of
        None \<Rightarrow> Inr m
      | Some xs \<Rightarrow> if xs \<noteq> [] then add_xref_lines m addr xs (sort (map fst xs)) else Inr m)"

text \<open>The label line: \<^verbatim>\<open>label = get_label(addr)\<close>, and a line if the label is not empty.\<close>

definition label_line :: "address_space \<Rightarrow> model \<Rightarrow> int \<Rightarrow> error + model \<times> address_space" where
  "label_line s m addr =
     (case get_label s addr of
        (Inl e, s1) \<Rightarrow> Inl e
      | (Inr label, s1) \<Rightarrow>
          Inr (case label of
                 None \<Rightarrow> m
               | Some l \<Rightarrow> if l \<noteq> [] then add_line m addr (Label addr) else m, s1))"

text \<open>
  The display object of the unit, chosen by the flag \<^verbatim>\<open>f = flags[i]\<close>, with the offset
  behind the unit.  A flag that is none of the four heads fails the \<^verbatim>\<open>assert\<close>.
\<close>

definition unit_obj ::
  "'p processor \<Rightarrow> nat \<Rightarrow> int \<Rightarrow> int \<Rightarrow> 'p world \<Rightarrow> error + (disasm_obj \<times> int \<times> 'p world)" where
  "unit_obj P k addr i w =
     (let flags = FLAGS (area_list (fst w) ! k);
          bytes = BYTES (area_list (fst w) ! k)
      in case py_getitem flags i of
           Inl e \<Rightarrow> Inl e
         | Inr f \<Rightarrow>
             if f = UNK then
               (case py_getitem bytes i of
                  Inl e \<Rightarrow> Inl e
                | Inr b \<Rightarrow> Inr (Unknown addr b, i + 1, w))
             else if f = DATA then
               (case cont_scan flags DATA_CONT (i + 1) 1 of
                  Inl e \<Rightarrow> Inl e
                | Inr sz \<Rightarrow>
                    (case get_data (fst w) addr sz of
                       (Inl e, s2) \<Rightarrow> Inl e
                     | (Inr val, s2) \<Rightarrow> Inr (Data addr sz val, i + sz, (s2, snd w))))
             else if f = STR_flag then
               (case py_getitem bytes i of
                  Inl e \<Rightarrow> Inl e
                | Inr b \<Rightarrow>
                    (case str_scan flags bytes (i + 1) 1 [char_of (unat b)] of
                       Inl e \<Rightarrow> Inl e
                     | Inr (sz, str) \<Rightarrow> Inr (String addr sz str, i + sz, w)))
             else if f = CODE then
               (case ana P addr w of
                  (Inl e, w1) \<Rightarrow> Inl e
                | (Inr insn_sz, w1) \<Rightarrow>
                    (case out P addr w1 of
                       (Inl e, w2) \<Rightarrow> Inl e
                     | (Inr u, w2) \<Rightarrow> Inr (Instruction addr, i + insn_sz, w2)))
             else Inl AssertionError)"

text \<open>
  The whole iteration: the budget adjustment for an address before the target, the three
  parts, and the decrement of the budget.  It returns the next offset, the budget, the
  world and the model.  An exception abandons the render.
\<close>

definition render_unit ::
  "'p processor \<Rightarrow> nat \<Rightarrow> int \<Rightarrow> int \<Rightarrow> int \<Rightarrow> 'p world \<Rightarrow> model \<Rightarrow>
     error + (int \<times> int \<times> 'p world \<times> model)" where
  "render_unit P k target i num_lines w m =
     (let addr = START (area_list (fst w) ! k) + i;
          num_lines1 = (if target \<ge> 0 \<and> addr < target then num_lines + 1 else num_lines)
      in case xref_lines (fst w) m addr of
           Inl e \<Rightarrow> Inl e
         | Inr m1 \<Rightarrow>
             (case label_line (fst w) m1 addr of
                Inl e \<Rightarrow> Inl e
              | Inr (m2, s1) \<Rightarrow>
                  (case unit_obj P k addr i (s1, snd w) of
                     Inl e \<Rightarrow> Inl e
                   | Inr (ob, i', w') \<Rightarrow> Inr (i', num_lines1 - 1, w', add_line m2 addr ob))))"

text \<open>
  The inner loop \<^verbatim>\<open>while i < len(flags)\<close>.  An instruction advances \<open>i\<close> by whatever the
  plug-in returned, so the loop need not end: no result is \<open>None\<close>.  The Boolean of the
  result tells whether the loop was left by \<^verbatim>\<open>return\<close> (the budget reached zero).
\<close>

partial_function (option) render_units ::
  "'p processor \<Rightarrow> nat \<Rightarrow> int \<Rightarrow> int \<Rightarrow> int \<Rightarrow> 'p world \<Rightarrow> model \<Rightarrow>
     (error + (bool \<times> int \<times> 'p world \<times> model)) option" where
  "render_units P k target i num_lines w m =
     (if i < int (length (FLAGS (area_list (fst w) ! k))) then
        (case render_unit P k target i num_lines w m of
           Inl e \<Rightarrow> Some (Inl e)
         | Inr (i', num_lines', w', m') \<Rightarrow>
             if num_lines' = 0 then Some (Inr (True, num_lines', w', m'))
             else render_units P k target i' num_lines' w' m')
      else Some (Inr (False, num_lines, w, m)))"

text \<open>\<^verbatim>\<open>area_list[area_no]\<close>, as the position of the area in the list.\<close>

definition area_at :: "area list \<Rightarrow> int \<Rightarrow> error + nat" where
  "area_at as area_no =
     (case py_pos (length as) area_no of None \<Rightarrow> Inl IndexError | Some k \<Rightarrow> Inr k)"

text \<open>
  The outer loop \<^verbatim>\<open>while area_no < len(ADDRESS_SPACE.area_list)\<close>.  The result carries
  the final value of the local variable \<^verbatim>\<open>num_lines\<close>, which the source drops: it is zero
  exactly when the render ended because the budget was used up.
\<close>

partial_function (option) render_areas ::
  "'p processor \<Rightarrow> int \<Rightarrow> bool \<Rightarrow> int \<Rightarrow> int \<Rightarrow> int \<Rightarrow> 'p world \<Rightarrow> model \<Rightarrow>
     (error + (int \<times> 'p world \<times> model)) option" where
  "render_areas P target start area_no offset num_lines w m =
     (if area_no < int (length (area_list (fst w))) then
        (case area_at (area_list (fst w)) area_no of
           Inl e \<Rightarrow> Some (Inl e)
         | Inr k \<Rightarrow>
             (let a = area_list (fst w) ! k;
                  i = (if start then offset else 0);
                  m1 = (if start then m
                        else add_line m (START a)
                               (Literal (START a) (''; Start of 0x'' @ fmt_x (START a) @ '' area'')))
              in case render_units P k target i num_lines w m1 of
                   None \<Rightarrow> None
                 | Some (Inl e) \<Rightarrow> Some (Inl e)
                 | Some (Inr (returned, num_lines', w', m')) \<Rightarrow>
                     if returned then Some (Inr (num_lines', w', m'))
                     else render_areas P target False (area_no + 1) offset num_lines' w'
                            (add_line m' (END a)
                               (Literal (END a) (''; End of 0x'' @ fmt_x (START a) @ '' area'')))))
      else Some (Inr (num_lines, w, m)))"

declare render_units.simps [code] render_areas.simps [code]

definition render_partial ::
  "'p processor \<Rightarrow> 'p world \<Rightarrow> model \<Rightarrow> int \<Rightarrow> int \<Rightarrow> int \<Rightarrow> int \<Rightarrow>
     (error + (int \<times> 'p world \<times> model)) option" where
  "render_partial P w m area_no offset num_lines target =
     render_areas P target True area_no offset num_lines w m"

definition render :: "'p processor \<Rightarrow> 'p world \<Rightarrow> (error + (int \<times> 'p world \<times> model)) option" where
  "render P w = render_partial P w (Model 0 0) 0 0 1000000 (-1)"

text \<open>
  \<^verbatim>\<open>xs.index(x)\<close>: the position of the first element equal to \<open>x\<close>.  Tuples are compared
  by value, so this need not be the position of the object \<open>x\<close> itself.
\<close>

fun index_from :: "'a list \<Rightarrow> 'a \<Rightarrow> nat \<Rightarrow> error + nat" where
  "index_from [] x n = Inl ValueError"
| "index_from (y # ys) x n = (if y = x then Inr n else index_from ys x (Suc n))"

definition area_no :: "address_space \<Rightarrow> nat \<Rightarrow> error + nat" where
  "area_no s k = index_from (area_list s) (area_list s ! k) 0"

definition MAX_UNIT_SIZE :: int where
  "MAX_UNIT_SIZE = 4"

text \<open>
  The loop \<^verbatim>\<open>while area_no >= 0\<close> of \<^verbatim>\<open>render_partial_around\<close>, which walks back over
  the areas before the one of the address.  \<open>k\<close> is the area the variable \<^verbatim>\<open>area\<close> refers
  to; the result is that area and the offset when the loop ends.
\<close>

function seek_back :: "area list \<Rightarrow> int \<Rightarrow> nat \<Rightarrow> int \<Rightarrow> error + nat \<times> int" where
  "seek_back as n k off =
     (if n \<ge> 0 then
        (case area_at as n of
           Inl e \<Rightarrow> Inl e
         | Inr k' \<Rightarrow>
             (let area = as ! k'; sz = END area - START area + 1; off' = off + sz
              in if off' \<ge> 0 then Inr (k', off') else seek_back as (n - 1) k' off'))
      else Inr (k, off))"
  by pat_completeness auto
termination
  by (relation "measure (\<lambda>(as, n, k, off). nat (n + 1))") auto

declare seek_back.simps [simp del]

text \<open>
  \<^verbatim>\<open>render_partial_around\<close> returns \<^verbatim>\<open>None\<close> for an address outside every area, and the
  model otherwise; its two \<^verbatim>\<open>assert\<close> statements raise \<^verbatim>\<open>AssertionError\<close>.
\<close>

definition render_partial_around ::
  "'p processor \<Rightarrow> 'p world \<Rightarrow> int \<Rightarrow> int \<Rightarrow> int \<Rightarrow> (error + (model option \<times> 'p world)) option" where
  "render_partial_around P w addr sub context_lines =
     (case addr2area (fst w) addr of
        (None, s1) \<Rightarrow> Some (Inr (None, (s1, snd w)))
      | (Some (off, k), s1) \<Rightarrow>
          (let back = context_lines * MAX_UNIT_SIZE;
               off1 = off - back
           in case (if off1 < 0 then
                      (case area_no s1 k of
                         Inl e \<Rightarrow> Inl e
                       | Inr n \<Rightarrow>
                           (case seek_back (area_list s1) (int n - 1) k off1 of
                              Inl e \<Rightarrow> Inl e
                            | Inr (k', off2) \<Rightarrow> Inr (k', if off2 < 0 then 0 else off2)))
                    else Inr (k, off1)) of
                Inl e \<Rightarrow> Some (Inl e)
              | Inr (k2, off3) \<Rightarrow>
                  if \<not> off3 \<ge> 0 then Some (Inl AssertionError)
                  else
                    (case adjust_offset_reverse off3 (area_list s1 ! k2) of
                       Inl e \<Rightarrow> Some (Inl e)
                     | Inr off4 \<Rightarrow>
                         (case area_no s1 k2 of
                            Inl e \<Rightarrow> Some (Inl e)
                          | Inr n2 \<Rightarrow>
                              (case render_partial P (s1, snd w) (Model addr sub) (int n2) off4
                                      context_lines addr of
                                 None \<Rightarrow> None
                               | Some (Inl e) \<Rightarrow> Some (Inl e)
                               | Some (Inr (num_lines', w', m)) \<Rightarrow>
                                   if \<not> target_addr_lineno_0 m \<ge> 0 then Some (Inl AssertionError)
                                   else Some (Inr (Some (if target_addr_lineno m = -1
                                                         then m\<lparr>target_addr_lineno := target_addr_lineno_0 m\<rparr>
                                                         else m), w')))))))"

section \<open>Predicates of the statements, and small address spaces to evaluate them on\<close>

definition in_area :: "area \<Rightarrow> int \<Rightarrow> bool" where
  "in_area a addr \<longleftrightarrow> START a \<le> addr \<and> addr \<le> END a"

text \<open>No address lies in two areas of the list.\<close>

definition non_overlapping :: "area list \<Rightarrow> bool" where
  "non_overlapping as \<longleftrightarrow>
     (\<forall>i<length as. \<forall>j<length as. i \<noteq> j \<longrightarrow>
        min (END (as ! i)) (END (as ! j)) < max (START (as ! i)) (START (as ! j)))"

text \<open>The cache, when set, refers to an area of the list: \<^verbatim>\<open>addr2area\<close> sets it so.\<close>

definition cache_ok :: "address_space \<Rightarrow> bool" where
  "cache_ok s \<longleftrightarrow> (case last_area s of None \<Rightarrow> True | Some i \<Rightarrow> i < length (area_list s))"

text \<open>
  The linear scan on its own, without the cache: the first area of the list that
  holds the address, with the offset of the address in it.
\<close>

fun addr2area_scan :: "area list \<Rightarrow> int \<Rightarrow> (int \<times> area) option" where
  "addr2area_scan [] addr = None"
| "addr2area_scan (a # as) addr =
     (if START a \<le> addr \<and> addr \<le> END a then Some (addr - START a, a)
      else addr2area_scan as addr)"

text \<open>A plug-in that decodes nothing, and the address spaces of the examples.\<close>

definition null_processor :: "unit processor" where
  "null_processor = \<lparr>ana = (\<lambda>ea w. (Inr 0, w)), emu = (\<lambda>ea w. (Inr True, w)),
     out = (\<lambda>ea w. (Inr (), w))\<rparr>"

definition area_0_3 :: address_space where
  "area_0_3 = AddressSpace\<lparr>area_list :=
     [\<lparr>START = 0, END = 3, PROPS = [], BYTES = [0, 0, 0, 0], FLAGS = [0, 0, 0, 0]\<rparr>]\<rparr>"

definition two_areas :: address_space where
  "two_areas = AddressSpace\<lparr>area_list :=
     [\<lparr>START = 0, END = 3, PROPS = [], BYTES = [1, 2, 3, 4], FLAGS = [0, 0, 0, 0]\<rparr>,
      \<lparr>START = 16, END = 17, PROPS = [], BYTES = [5, 6], FLAGS = [0, 0]\<rparr>],
     last_area := Some 1\<rparr>"

text \<open>
  \<open>flags_frame s s' k off sz\<close>: the state \<open>s'\<close> differs from \<open>s\<close> at most in the cache
  and in the flag bytes at the offsets \<open>off \<le> p < off + sz\<close> of the area at position \<open>k\<close>.
\<close>

definition flags_frame :: "address_space \<Rightarrow> address_space \<Rightarrow> nat \<Rightarrow> int \<Rightarrow> int \<Rightarrow> bool" where
  "flags_frame s s' k off sz \<longleftrightarrow>
     labels s' = labels s \<and> comments s' = comments s \<and> xrefs s' = xrefs s \<and>
     arg_props s' = arg_props s \<and> length (area_list s') = length (area_list s) \<and>
     (\<forall>j<length (area_list s).
        START (area_list s' ! j) = START (area_list s ! j) \<and>
        END (area_list s' ! j) = END (area_list s ! j) \<and>
        PROPS (area_list s' ! j) = PROPS (area_list s ! j) \<and>
        BYTES (area_list s' ! j) = BYTES (area_list s ! j) \<and>
        length (FLAGS (area_list s' ! j)) = length (FLAGS (area_list s ! j)) \<and>
        (\<forall>p<length (FLAGS (area_list s ! j)).
           (j = k \<and> off \<le> int p \<and> int p < off + sz) \<or>
           FLAGS (area_list s' ! j) ! p = FLAGS (area_list s ! j) ! p))"

text \<open>The lengths that \<^verbatim>\<open>add_area\<close> gives the two byte arrays of an area.\<close>

definition area_ok :: "area \<Rightarrow> bool" where
  "area_ok a \<longleftrightarrow> length (BYTES a) = nat (END a - START a + 1) \<and>
     length (FLAGS a) = nat (END a - START a + 1)"

text \<open>
  The address space of the rendering example: the area \<open>[0, 3]\<close> with zero bytes and
  \<^verbatim>\<open>UNK\<close> flags, after \<^verbatim>\<open>make_auto_label(1)\<close> and \<^verbatim>\<open>add_xref(3, 1, "j")\<close>.
\<close>

definition scenario_5 :: address_space where
  "scenario_5 = add_xref (make_auto_label area_0_3 1) 3 1 ''j''"

text \<open>
  The arguments of the progress callback up to a count \<open>c\<close>: 1000, 2000, and so on up to
  the largest multiple of 1000 that is at most \<open>c\<close>, each once.
\<close>

definition progress_calls :: "int \<Rightarrow> int list" where
  "progress_calls c = map (\<lambda>k. 1000 * int k) [1..<Suc (nat c div 1000)]"

text \<open>
  The invariant of the loop of \<^verbatim>\<open>analyze\<close>, and what holds of the state it ends in.  The
  loop ends with an empty stack or a used-up limit, or with an exception; an exception of
  \<^verbatim>\<open>emu\<close>, \<^verbatim>\<open>make_code\<close> or \<^verbatim>\<open>out\<close> comes after the instruction was counted as decoded and
  before \<^verbatim>\<open>cnt\<close> was incremented.
\<close>

definition analysis_inv :: "'q analysis \<Rightarrow> bool" where
  "analysis_inv st \<longleftrightarrow>
     0 \<le> cnt st \<and> int (limit st) + cnt st = 40000 \<and> calls st = progress_calls (cnt st) \<and>
     int (decoded st) = cnt st \<and> raised st = None"

definition analysis_post :: "'q analysis \<Rightarrow> bool" where
  "analysis_post r \<longleftrightarrow>
     0 \<le> cnt r \<and> int (limit r) + cnt r = 40000 \<and> calls r = progress_calls (cnt r) \<and>
     (case raised r of
        None \<Rightarrow> int (decoded r) = cnt r \<and> (analisys_stack (world r) = [] \<or> limit r = 0)
      | Some e \<Rightarrow> int (decoded r) = cnt r \<or> (int (decoded r) = cnt r + 1 \<and> limit r \<noteq> 0))"

text \<open>\<^verbatim>\<open>ana\<close> leaves the analysis stack as it found it.\<close>

definition ana_keeps_stack :: "(int list \<times> 'q) processor \<Rightarrow> bool" where
  "ana_keeps_stack P \<longleftrightarrow> (\<forall>ea w. analisys_stack (snd (ana P ea w)) = analisys_stack w)"

text \<open>
  Nothing that an iteration of the loop calls raises, in whatever world the iteration
  starts, but for the \<^verbatim>\<open>InvalidAddrException\<close> of \<^verbatim>\<open>ana\<close>, which the loop catches.
\<close>

definition never_raises ::
  "(int list \<times> 'q) processor \<Rightarrow> (int \<Rightarrow> 'q aworld \<Rightarrow> (error + unit) \<times> 'q aworld) \<Rightarrow> bool" where
  "never_raises P callback \<longleftrightarrow>
     (\<forall>ea w.
        (case ana P ea w of
           (Inl e, w1) \<Rightarrow> (\<exists>a. e = InvalidAddrException a)
         | (Inr insn_sz, w1) \<Rightarrow>
             insn_sz = 0 \<or>
             (case emu P ea w1 of
                (Inl e, w2) \<Rightarrow> False
              | (Inr ok, w2) \<Rightarrow>
                  ok \<and>
                  (case make_code (fst w2) ea insn_sz of
                     (Inl e, s3) \<Rightarrow> False
                   | (Inr u, s3) \<Rightarrow>
                       (case out P ea (s3, snd w2) of
                          (Inl e, w4) \<Rightarrow> False
                        | (Inr u', w4) \<Rightarrow> (\<forall>c. fst (callback c w4) = Inr ()))))))"

text \<open>
  A plug-in for which every byte with a flag is a one-byte instruction followed by the
  next address; a plug-in whose \<^verbatim>\<open>ana\<close> pushes the address it was given and decodes
  nothing; a callback that does nothing; and an area of 2000 bytes.
\<close>

definition flag_processor :: "(int list \<times> unit) processor" where
  "flag_processor =
     \<lparr>ana = (\<lambda>ea w. case get_flags (fst w) ea of
                        (Inl e, s') \<Rightarrow> (Inl (InvalidAddrException ea), (s', snd w))
                      | (Inr f, s') \<Rightarrow> (Inr 1, (s', snd w))),
      emu = (\<lambda>ea w. (Inr True, analisys_stack_push (ea + 1) w)),
      out = (\<lambda>ea w. (Inr (), w))\<rparr>"

definition pushing_processor :: "(int list \<times> unit) processor" where
  "pushing_processor =
     \<lparr>ana = (\<lambda>ea w. (Inr 0, analisys_stack_push ea w)),
      emu = (\<lambda>ea w. (Inr True, w)),
      out = (\<lambda>ea w. (Inr (), w))\<rparr>"

definition no_callback :: "int \<Rightarrow> (int list \<times> unit) world \<Rightarrow> (error + unit) \<times> (int list \<times> unit) world" where
  "no_callback c w = (Inr (), w)"

definition area_0_1999 :: address_space where
  "area_0_1999 = AddressSpace\<lparr>area_list :=
     [\<lparr>START = 0, END = 1999, PROPS = [], BYTES = replicate 2000 0, FLAGS = replicate 2000 0\<rparr>]\<rparr>"

text \<open>
  The flag at an address and the string of a stored label, read off the area list alone:
  what \<^verbatim>\<open>get_flags\<close> and \<^verbatim>\<open>get_label\<close> compute when they do not raise.  \<open>labels_ok\<close>: the
  auto markers are the addresses they label, every auto-labelled address has a flag, and
  no two entries of the table have the same string.
\<close>

definition flags_at :: "area list \<Rightarrow> int \<Rightarrow> byte option" where
  "flags_at as addr =
     (case scan_areas as 0 addr of
        None \<Rightarrow> None
      | Some (off, k) \<Rightarrow> (case py_getitem (FLAGS (as ! k)) off of Inl e \<Rightarrow> None | Inr f \<Rightarrow> Some f))"

definition label_text :: "area list \<Rightarrow> label \<Rightarrow> string option" where
  "label_text as l =
     (case l of
        LStr str \<Rightarrow> Some str
      | LInt n \<Rightarrow>
          (case flags_at as n of
             None \<Rightarrow> None
           | Some fl \<Rightarrow>
               Some ((if fl = CODE then ''loc_'' else if fl AND DATA \<noteq> 0 then ''dat_'' else ''unk_'')
                      @ fmt_08x n)))"

definition labels_ok :: "address_space \<Rightarrow> bool" where
  "labels_ok s \<longleftrightarrow>
     (\<forall>(ea, l) \<in> set (labels s). (\<forall>n. l = LInt n \<longrightarrow> n = ea) \<and> label_text (area_list s) l \<noteq> None) \<and>
     distinct (map (\<lambda>(ea, l). label_text (area_list s) l) (labels s))"

text \<open>
  The area \<open>[0, 3]\<close> after \<^verbatim>\<open>make_auto_label(1)\<close> and \<^verbatim>\<open>set_label(2, "foo")\<close>, and after
  \<^verbatim>\<open>set_label(1, "foo")\<close> and \<^verbatim>\<open>set_label(2, "foo")\<close>.
\<close>

definition two_labels :: address_space where
  "two_labels = set_label (make_auto_label area_0_3 1) 2 ''foo''"

definition same_labels :: address_space where
  "same_labels = set_label (set_label area_0_3 1 ''foo'') 2 ''foo''"

text \<open>
  The address \<^verbatim>\<open>ea\<close> of a display object, and the number of lines of real objects
  (instructions, data, strings, unknown bytes) at addresses from \<open>target\<close> on.
\<close>

fun ea :: "disasm_obj \<Rightarrow> int" where
  "ea (Instruction a) = a"
| "ea (Data a sz val) = a"
| "ea (String a sz val) = a"
| "ea (Unknown a val) = a"
| "ea (Label a) = a"
| "ea (Xref a from_addr type) = a"
| "ea (Literal a str) = a"


chapter \<open>Properties\<close>

section \<open>Address resolution\<close>

lemma scan_areas_None: "scan_areas as n addr = None \<longleftrightarrow> (\<forall>a\<in>set as. \<not> in_area a addr)"
  by (induction as arbitrary: n) (auto simp: in_area_def)

lemma scan_areas_Some:
  "scan_areas as n addr = Some (off, i) \<Longrightarrow>
     n \<le> i \<and> i - n < length as \<and> in_area (as ! (i - n)) addr \<and>
     off = addr - START (as ! (i - n)) \<and> (\<forall>k < i - n. \<not> in_area (as ! k) addr)"
proof (induction as arbitrary: n)
  case Nil
  then show ?case by simp
next
  case (Cons a as)
  show ?case
  proof (cases "in_area a addr")
    case True
    with Cons.prems show ?thesis by (auto simp: in_area_def)
  next
    case False
    with Cons.prems have "scan_areas as (Suc n) addr = Some (off, i)"
      by (auto simp: in_area_def)
    from Cons.IH [OF this] have IH: "Suc n \<le> i" "i - Suc n < length as"
      "in_area (as ! (i - Suc n)) addr" "off = addr - START (as ! (i - Suc n))"
      "\<forall>k < i - Suc n. \<not> in_area (as ! k) addr" by auto
    from IH(1) have eq: "i - n = Suc (i - Suc n)" by arith
    from IH False show ?thesis
      by (auto simp: eq less_Suc_eq_0_disj)
  qed
qed

lemma non_overlapping_unique:
  "non_overlapping as \<Longrightarrow> i < length as \<Longrightarrow> j < length as \<Longrightarrow>
   in_area (as ! i) addr \<Longrightarrow> in_area (as ! j) addr \<Longrightarrow> i = j"
proof (rule ccontr)
  assume a: "non_overlapping as" "i < length as" "j < length as"
    "in_area (as ! i) addr" "in_area (as ! j) addr" and "i \<noteq> j"
  then have "min (END (as ! i)) (END (as ! j)) < max (START (as ! i)) (START (as ! j))"
    unfolding non_overlapping_def by blast
  with a(4,5) show False
    unfolding in_area_def by linarith
qed

lemma scan_areas_first:
  "scan_areas as n addr = Some (off, i) \<Longrightarrow> addr2area_scan as addr = Some (off, as ! (i - n))"
proof (induction as arbitrary: n)
  case Nil
  then show ?case by simp
next
  case (Cons a as)
  show ?case
  proof (cases "in_area a addr")
    case True
    with Cons.prems show ?thesis by (auto simp: in_area_def)
  next
    case False
    with Cons.prems have *: "scan_areas as (Suc n) addr = Some (off, i)"
      by (auto simp: in_area_def)
    from scan_areas_Some [OF *] have "Suc n \<le> i" by simp
    then have eq: "i - n = Suc (i - Suc n)" by arith
    from Cons.IH [OF *] False show ?thesis
      by (auto simp: in_area_def eq)
  qed
qed

lemma addr2area_scan_None: "addr2area_scan as addr = None \<longleftrightarrow> (\<forall>a\<in>set as. \<not> in_area a addr)"
  by (induction as) (auto simp: in_area_def)

lemma cache_ok_update: "cache_ok s \<Longrightarrow> i < length (area_list s) \<Longrightarrow> cache_ok (s\<lparr>last_area := Some i\<rparr>)"
  by (simp add: cache_ok_def)

lemma addr2area_pure:
  assumes no: "non_overlapping (area_list s)" and ok: "cache_ok s"
  shows "fst (addr2area s addr) = scan_areas (area_list s) 0 addr"
    and "\<exists>c. snd (addr2area s addr) = s\<lparr>last_area := c\<rparr> \<and> cache_ok (s\<lparr>last_area := c\<rparr>)"
proof -
  let ?as = "area_list s"
  have scan: "fst (addr2area s addr) = scan_areas ?as 0 addr \<and>
     (\<exists>c. snd (addr2area s addr) = s\<lparr>last_area := c\<rparr> \<and> cache_ok (s\<lparr>last_area := c\<rparr>))"
  proof (cases "\<exists>i. last_area s = Some i \<and> in_area (?as ! i) addr")
    case True
    then obtain i where i: "last_area s = Some i" "in_area (?as ! i) addr" by blast
    from ok i(1) have len: "i < length ?as" by (simp add: cache_ok_def)
    then have "?as ! i \<in> set ?as" by simp
    with i(2) have "scan_areas ?as 0 addr \<noteq> None" by (auto simp: scan_areas_None)
    then obtain off j where sc: "scan_areas ?as 0 addr = Some (off, j)" by auto
    from scan_areas_Some [OF sc] have j: "j < length ?as" "in_area (?as ! j) addr"
      "off = addr - START (?as ! j)" by auto
    from non_overlapping_unique [OF no len j(1) i(2) j(2)] have "i = j" .
    with i j sc have "addr2area s addr = (Some (off, j), s)"
      by (simp add: addr2area_def in_area_def)
    moreover have "s = s\<lparr>last_area := last_area s\<rparr>" by simp
    ultimately show ?thesis using sc ok by (metis fst_conv snd_conv)
  next
    case False
    then have miss: "(case last_area s of None \<Rightarrow> None
        | Some i \<Rightarrow> (let a = ?as ! i in
            if START a \<le> addr \<and> addr \<le> END a then Some (addr - START a, i) else None)) = None"
      by (auto simp: in_area_def split: option.splits)
    show ?thesis
    proof (cases "scan_areas ?as 0 addr")
      case None
      with miss have "addr2area s addr = (None, s)" by (simp add: addr2area_def)
      moreover have "s = s\<lparr>last_area := last_area s\<rparr>" by simp
      ultimately show ?thesis using None ok by (metis fst_conv snd_conv)
    next
      case (Some r)
      obtain off j where r: "r = (off, j)" by (cases r)
      from scan_areas_Some [OF Some [unfolded r]] have "j < length ?as" by simp
      then have "cache_ok (s\<lparr>last_area := Some j\<rparr>)" by (simp add: cache_ok_def)
      moreover from miss Some r have "addr2area s addr = (Some (off, j), s\<lparr>last_area := Some j\<rparr>)"
        by (simp add: addr2area_def)
      ultimately show ?thesis using Some r by auto
    qed
  qed
  from scan show "fst (addr2area s addr) = scan_areas (area_list s) 0 addr" by simp
  from scan show "\<exists>c. snd (addr2area s addr) = s\<lparr>last_area := c\<rparr> \<and> cache_ok (s\<lparr>last_area := c\<rparr>)" by simp
qed

text \<open>
  C9.  Given non-overlapping areas, \<^verbatim>\<open>addr2area\<close> returns what the linear scan of the
  area list alone returns, whatever the cache holds: for an address in some area the
  offset \<open>addr - start\<close> and that area, and nothing otherwise.  Of the state, only the
  cache can differ afterwards.
\<close>

theorem addr2area_linear_scan:
  assumes "non_overlapping (area_list s)" and "cache_ok s"
  shows "map_option (\<lambda>(off, i). (off, area_list s ! i)) (fst (addr2area s addr))
           = addr2area_scan (area_list s) addr
       \<and> (\<forall>a \<in> set (area_list s). in_area a addr \<longrightarrow>
             map_option (\<lambda>(off, i). (off, area_list s ! i)) (fst (addr2area s addr))
               = Some (addr - START a, a))
       \<and> ((\<forall>a \<in> set (area_list s). \<not> in_area a addr) \<longrightarrow> fst (addr2area s addr) = None)
       \<and> (\<exists>c. snd (addr2area s addr) = s\<lparr>last_area := c\<rparr>)"
proof -
  let ?as = "area_list s"
  let ?r = "map_option (\<lambda>(off, i). (off, ?as ! i)) (fst (addr2area s addr))"
  note pure = addr2area_pure [OF assms]
  have eq: "?r = addr2area_scan ?as addr"
  proof (cases "scan_areas ?as 0 addr")
    case None
    then have "\<forall>a\<in>set ?as. \<not> in_area a addr" by (simp add: scan_areas_None)
    then have "addr2area_scan ?as addr = None" by (simp add: addr2area_scan_None)
    with None pure(1) show ?thesis by simp
  next
    case (Some r)
    obtain off j where r: "r = (off, j)" by (cases r)
    from scan_areas_first [OF Some [unfolded r]] Some r pure(1) show ?thesis by simp
  qed
  have hit: "?r = Some (addr - START a, a)" if a: "a \<in> set ?as" "in_area a addr" for a
  proof -
    from a obtain k where k: "k < length ?as" "?as ! k = a" by (auto simp: in_set_conv_nth)
    from a have "scan_areas ?as 0 addr \<noteq> None" by (auto simp: scan_areas_None)
    then obtain off j where sc: "scan_areas ?as 0 addr = Some (off, j)" by auto
    from scan_areas_Some [OF sc] have j: "j < length ?as" "in_area (?as ! j) addr"
      "off = addr - START (?as ! j)" by auto
    from non_overlapping_unique [OF assms(1) k(1) j(1) _ j(2)] a(2) k(2) have "k = j" by simp
    with sc j k pure(1) show ?thesis by simp
  qed
  have miss: "fst (addr2area s addr) = None" if "\<forall>a \<in> set ?as. \<not> in_area a addr"
    using that pure(1) by (simp add: scan_areas_None)
  from eq hit miss pure(2) show ?thesis by blast
qed

lemma non_overlapping_two_areas: "non_overlapping (area_list two_areas)"
  by (simp add: non_overlapping_def two_areas_def AddressSpace_def less_Suc_eq nth_Cons')

lemma cache_ok_two_areas: "cache_ok two_areas"
  by (simp add: cache_ok_def two_areas_def AddressSpace_def)

theorem addr2area_linear_scan_witness:
  "non_overlapping (area_list two_areas) \<and> cache_ok two_areas \<and>
   map_option (\<lambda>(off, i). (off, area_list two_areas ! i)) (fst (addr2area two_areas 2))
     = addr2area_scan (area_list two_areas) 2 \<and>
   addr2area_scan (area_list two_areas) 2
     = Some (2, \<lparr>START = 0, END = 3, PROPS = [], BYTES = [1, 2, 3, 4], FLAGS = [0, 0, 0, 0]\<rparr>)"
  using addr2area_linear_scan [OF non_overlapping_two_areas cache_ok_two_areas, of 2]
    non_overlapping_two_areas cache_ok_two_areas
  by (simp add: two_areas_def AddressSpace_def)

lemma addr2area_outside:
  assumes "\<forall>a \<in> set (area_list s). \<not> in_area a addr" and "cache_ok s"
  shows "addr2area s addr = (None, s)"
proof -
  from assms(1) have sc: "scan_areas (area_list s) 0 addr = None"
    by (simp add: scan_areas_None)
  have "\<not> in_area (area_list s ! i) addr" if "last_area s = Some i" for i
    using that assms by (auto simp: cache_ok_def)
  then show ?thesis
    using sc by (auto simp: addr2area_def in_area_def split: option.splits)
qed

text \<open>
  C2.  The claim is that \<^verbatim>\<open>get_data\<close> raises \<^verbatim>\<open>InvalidAddrException\<close> for an address outside
  every area, as \<^verbatim>\<open>get_byte\<close> and \<^verbatim>\<open>get_bytes\<close> do.  The code does not: \<^verbatim>\<open>get_data\<close> has no
  \<^verbatim>\<open>area is None\<close> test, and for a size of at least one its first iteration subscripts
  \<^verbatim>\<open>None\<close>, which raises \<^verbatim>\<open>TypeError\<close>; the two sibling readers raise
  \<^verbatim>\<open>InvalidAddrException\<close> at the same address.
\<close>

theorem get_data_outside_TypeError:
  assumes "\<forall>a \<in> set (area_list s). \<not> in_area a addr" and "cache_ok s" and "sz \<ge> 1"
  shows "get_data s addr sz = (Inl TypeError, s)
       \<and> get_byte s addr = (Inl (InvalidAddrException addr), s)
       \<and> get_bytes s addr sz = (Inl (InvalidAddrException addr), s)"
proof -
  from assms(3) obtain n where n: "nat sz = Suc n"
    by (cases "nat sz") auto
  have "[0..<nat sz] = 0 # [1..<nat sz]"
    unfolding n by (simp add: upt_conv_Cons)
  then have "get_data_loop None 0 [0..<nat sz] 0 = Inl TypeError"
    by simp
  with addr2area_outside [OF assms(1,2)] show ?thesis
    by (simp add: get_data_def get_byte_def get_bytes_def)
qed

theorem get_data_outside_TypeError_witness:
  "get_data area_0_3 100 4 = (Inl TypeError, area_0_3)
   \<and> get_byte area_0_3 100 = (Inl (InvalidAddrException 100), area_0_3)
   \<and> get_bytes area_0_3 100 4 = (Inl (InvalidAddrException 100), area_0_3)"
  using get_data_outside_TypeError [of area_0_3 100 4]
  by (simp add: area_0_3_def AddressSpace_def in_area_def cache_ok_def)

section \<open>Flags and units\<close>

lemma cache_same: "\<exists>c. s = s\<lparr>last_area := c\<rparr>"
  by (rule exI [of _ "last_area s"]) simp

lemma addr2area_cases:
  assumes "cache_ok s" and "addr2area s addr = (r, s')"
  shows "(\<exists>c. s' = s\<lparr>last_area := c\<rparr>) \<and> cache_ok s' \<and>
         (case r of None \<Rightarrow> True
          | Some (off, k) \<Rightarrow> k < length (area_list s) \<and> in_area (area_list s ! k) addr \<and>
              off = addr - START (area_list s ! k) \<and> last_area s' = Some k)"
proof (cases "\<exists>i. last_area s = Some i \<and> in_area (area_list s ! i) addr")
  case True
  then obtain i where i: "last_area s = Some i" "in_area (area_list s ! i) addr" by blast
  with assms(2) have "r = Some (addr - START (area_list s ! i), i)" "s' = s"
    by (auto simp: addr2area_def in_area_def)
  moreover from assms(1) i(1) have "i < length (area_list s)" by (simp add: cache_ok_def)
  ultimately show ?thesis using i assms(1) cache_same [of s] by auto
next
  case False
  then have miss: "(case last_area s of None \<Rightarrow> None
      | Some i \<Rightarrow> (let a = area_list s ! i in
          if START a \<le> addr \<and> addr \<le> END a then Some (addr - START a, i) else None)) = None"
    by (auto simp: in_area_def split: option.splits)
  show ?thesis
  proof (cases "scan_areas (area_list s) 0 addr")
    case None
    with miss assms(2) have "r = None" "s' = s" by (auto simp: addr2area_def)
    then show ?thesis using assms(1) cache_same [of s] by auto
  next
    case (Some x)
    obtain off k where x: "x = (off, k)" by (cases x)
    from scan_areas_Some [OF Some [unfolded x]]
    have k: "k < length (area_list s)" "in_area (area_list s ! k) addr"
      "off = addr - START (area_list s ! k)" by auto
    from miss Some x assms(2) have "r = Some (off, k)" "s' = s\<lparr>last_area := Some k\<rparr>"
      by (auto simp: addr2area_def)
    with k show ?thesis by (auto simp: cache_ok_def)
  qed
qed

lemma py_getitem_nonneg:
  "0 \<le> i \<Longrightarrow> py_getitem xs i = (if nat i < length xs then Inr (xs ! nat i) else Inl IndexError)"
  by (auto simp: py_getitem_def py_pos_def)

lemma py_setitem_nonneg:
  "0 \<le> i \<Longrightarrow> py_setitem xs i v = (if nat i < length xs then Inr (xs[nat i := v]) else Inl IndexError)"
  by (auto simp: py_setitem_def py_pos_def)

lemma bytearray_ior_nonneg:
  "0 \<le> i \<Longrightarrow> bytearray_ior xs i v =
     (if nat i < length xs then Inr (xs[nat i := xs ! nat i OR v]) else Inl IndexError)"
  by (simp add: bytearray_ior_def py_getitem_nonneg py_setitem_nonneg)

lemma bytearray_setitem_nonneg:
  "0 \<le> i \<Longrightarrow> bytearray_setitem xs i v =
     (if 0 \<le> v \<and> v < 256 then
        (if nat i < length xs then Inr (xs[nat i := word_of_int v]) else Inl IndexError)
      else Inl ValueError)"
  by (simp add: bytearray_setitem_def py_setitem_nonneg)

lemma ior_loop_frame:
  "0 \<le> base \<Longrightarrow> ior_loop flags base v is = (flags', e) \<Longrightarrow>
     length flags' = length flags \<and>
     (\<forall>p<length flags. (\<exists>i\<in>set is. int p = base + int i) \<or> flags' ! p = flags ! p)"
proof (induction "is" arbitrary: flags)
  case Nil
  then show ?case by simp
next
  case (Cons i "is")
  show ?case
  proof (cases "nat (base + int i) < length flags")
    case True
    let ?f1 = "flags[nat (base + int i) := flags ! nat (base + int i) OR v]"
    from Cons.prems True have "ior_loop ?f1 base v is = (flags', e)"
      by (simp add: bytearray_ior_nonneg)
    from Cons.IH [OF Cons.prems(1) this] Cons.prems(1) show ?thesis
      by (auto simp: nth_list_update)
  next
    case False
    with Cons.prems show ?thesis by (simp add: bytearray_ior_nonneg)
  qed
qed

lemma set_loop_frame:
  "0 \<le> base \<Longrightarrow> set_loop flags base v is = (flags', e) \<Longrightarrow>
     length flags' = length flags \<and>
     (\<forall>p<length flags. (\<exists>i\<in>set is. int p = base + int i) \<or> flags' ! p = flags ! p)"
proof (induction "is" arbitrary: flags)
  case Nil
  then show ?case by simp
next
  case (Cons i "is")
  show ?case
  proof (cases "0 \<le> v \<and> v < 256 \<and> nat (base + int i) < length flags")
    case True
    let ?f1 = "flags[nat (base + int i) := word_of_int v]"
    from Cons.prems True have "set_loop ?f1 base v is = (flags', e)"
      by (simp add: bytearray_setitem_nonneg)
    from Cons.IH [OF Cons.prems(1) this] Cons.prems(1) show ?thesis
      by (auto simp: nth_list_update)
  next
    case False
    with Cons.prems show ?thesis by (auto simp: bytearray_setitem_nonneg split: if_splits)
  qed
qed

lemma flags_frame_cache: "flags_frame s (s\<lparr>last_area := c\<rparr>) k off sz"
  by (simp add: flags_frame_def)

lemma flags_frame_put:
  assumes "k < length (area_list s)" and "length flags' = length (FLAGS (area_list s ! k))"
    and "\<forall>p<length flags'. (off \<le> int p \<and> int p < off + sz) \<or> flags' ! p = FLAGS (area_list s ! k) ! p"
  shows "flags_frame s (put_flags (s\<lparr>last_area := c\<rparr>) k flags') k off sz"
  using assms by (auto simp: flags_frame_def put_flags_def nth_list_update)

lemma ior_writer_frame:
  assumes k: "k < length (area_list s)" and off: "0 \<le> off" and sz: "1 \<le> sz"
  shows "flags_frame s
           (snd (case bytearray_ior (FLAGS (area_list s ! k)) off h of
                   Inl e \<Rightarrow> (Inl e, s\<lparr>last_area := c\<rparr>)
                 | Inr flags1 \<Rightarrow>
                     (case ior_loop flags1 (off + 1) v [0..<nat (sz - 1)] of
                        (flags2, e) \<Rightarrow> (raise_opt e, put_flags (s\<lparr>last_area := c\<rparr>) k flags2))))
           k off sz"
proof (cases "nat off < length (FLAGS (area_list s ! k))")
  case False
  with off show ?thesis by (simp add: bytearray_ior_nonneg flags_frame_cache)
next
  case True
  let ?fl = "FLAGS (area_list s ! k)"
  let ?f1 = "?fl[nat off := ?fl ! nat off OR h]"
  obtain flags2 e where loop: "ior_loop ?f1 (off + 1) v [0..<nat (sz - 1)] = (flags2, e)"
    by (cases "ior_loop ?f1 (off + 1) v [0..<nat (sz - 1)]")
  from off have "0 \<le> off + 1" by simp
  from ior_loop_frame [OF this loop]
  have len: "length flags2 = length ?fl"
    and fr: "\<forall>p<length ?fl. (\<exists>i\<in>set [0..<nat (sz - 1)]. int p = off + 1 + int i) \<or> flags2 ! p = ?f1 ! p"
    by simp_all
  have "\<forall>p<length flags2. (off \<le> int p \<and> int p < off + sz) \<or> flags2 ! p = ?fl ! p"
  proof (intro allI impI)
    fix p assume p: "p < length flags2"
    show "(off \<le> int p \<and> int p < off + sz) \<or> flags2 ! p = ?fl ! p"
    proof (cases "off \<le> int p \<and> int p < off + sz")
      case True
      then show ?thesis by simp
    next
      case False
      have ne: "p \<noteq> nat off"
      proof
        assume "p = nat off"
        with off have "int p = off" by simp
        with False sz show False by linarith
      qed
      from False have "\<not> (\<exists>i\<in>set [0..<nat (sz - 1)]. int p = off + 1 + int i)"
        by auto
      with fr p len have "flags2 ! p = ?f1 ! p" by auto
      with ne show ?thesis by simp
    qed
  qed
  from flags_frame_put [OF k len this] True off loop show ?thesis
    by (simp add: bytearray_ior_nonneg)
qed

lemma set_writer_frame:
  assumes k: "k < length (area_list s)" and off: "0 \<le> off" and sz: "1 \<le> sz"
  shows "flags_frame s
           (snd (case bytearray_setitem (FLAGS (area_list s ! k)) off h of
                   Inl e \<Rightarrow> (Inl e, s\<lparr>last_area := c\<rparr>)
                 | Inr flags1 \<Rightarrow>
                     (case set_loop flags1 (off + 1) v [0..<nat (sz - 1)] of
                        (flags2, e) \<Rightarrow> (raise_opt e, put_flags (s\<lparr>last_area := c\<rparr>) k flags2))))
           k off sz"
proof (cases "0 \<le> h \<and> h < 256 \<and> nat off < length (FLAGS (area_list s ! k))")
  case False
  with off show ?thesis by (auto simp: bytearray_setitem_nonneg flags_frame_cache)
next
  case True
  let ?fl = "FLAGS (area_list s ! k)"
  let ?f1 = "?fl[nat off := word_of_int h]"
  obtain flags2 e where loop: "set_loop ?f1 (off + 1) v [0..<nat (sz - 1)] = (flags2, e)"
    by (cases "set_loop ?f1 (off + 1) v [0..<nat (sz - 1)]")
  from off have "0 \<le> off + 1" by simp
  from set_loop_frame [OF this loop]
  have len: "length flags2 = length ?fl"
    and fr: "\<forall>p<length ?fl. (\<exists>i\<in>set [0..<nat (sz - 1)]. int p = off + 1 + int i) \<or> flags2 ! p = ?f1 ! p"
    by simp_all
  have "\<forall>p<length flags2. (off \<le> int p \<and> int p < off + sz) \<or> flags2 ! p = ?fl ! p"
  proof (intro allI impI)
    fix p assume p: "p < length flags2"
    show "(off \<le> int p \<and> int p < off + sz) \<or> flags2 ! p = ?fl ! p"
    proof (cases "off \<le> int p \<and> int p < off + sz")
      case True
      then show ?thesis by simp
    next
      case False
      have ne: "p \<noteq> nat off"
      proof
        assume "p = nat off"
        with off have "int p = off" by simp
        with False sz show False by linarith
      qed
      from False have "\<not> (\<exists>i\<in>set [0..<nat (sz - 1)]. int p = off + 1 + int i)"
        by auto
      with fr p len have "flags2 ! p = ?f1 ! p" by auto
      with ne show ?thesis by simp
    qed
  qed
  from flags_frame_put [OF k len this] True off loop show ?thesis
    by (simp add: bytearray_setitem_nonneg)
qed

text \<open>
  C10, amended.  For a valid address (one that \<^verbatim>\<open>addr2area\<close> resolves to the offset \<open>off\<close> of
  the area \<open>k\<close>) and a size of at least one, each of \<^verbatim>\<open>set_flags\<close>, \<^verbatim>\<open>make_undefined\<close>,
  \<^verbatim>\<open>make_code\<close> and \<^verbatim>\<open>make_data\<close> changes only flag bytes at the offsets
  \<open>off \<le> p < off + sz\<close> of that area (and the cache): the bytes, the other flags, the other
  areas and the four tables are as before.  This holds whether or not the call raises.
\<close>

theorem flag_writers_frame:
  assumes ok: "cache_ok s" and res: "fst (addr2area s addr) = Some (off, k)" and sz: "1 \<le> sz"
  shows "flags_frame s (snd (set_flags s addr sz head_fl rest_fl)) k off sz
       \<and> flags_frame s (snd (make_undefined s addr sz)) k off sz
       \<and> flags_frame s (snd (make_code s addr sz)) k off sz
       \<and> flags_frame s (snd (make_data s addr sz)) k off sz"
proof -
  obtain s1 where a: "addr2area s addr = (Some (off, k), s1)"
    using res by (cases "addr2area s addr") simp
  from addr2area_cases [OF ok a] obtain c where
    s1: "s1 = s\<lparr>last_area := c\<rparr>" and k: "k < length (area_list s)"
    and off: "0 \<le> off"
    by (auto simp: in_area_def)
  have set: "flags_frame s (snd (set_flags s addr sz h r)) k off sz" for h r
    using set_writer_frame [where h = h and c = c and v = r, OF k off sz] by (simp add: set_flags_def a s1)
  have code: "flags_frame s (snd (make_code s addr sz)) k off sz"
    using ior_writer_frame [where h = CODE and c = c and v = CODE_CONT, OF k off sz] by (simp add: make_code_def a s1)
  have data: "flags_frame s (snd (make_data s addr sz)) k off sz"
    using ior_writer_frame [where h = DATA and c = c and v = DATA_CONT, OF k off sz] by (simp add: make_data_def a s1)
  from set code data show ?thesis by (simp add: make_undefined_def)
qed

lemma flags_frameD:
  "flags_frame s s' k off sz \<Longrightarrow> j < length (area_list s) \<Longrightarrow>
   p < length (FLAGS (area_list s ! j)) \<Longrightarrow> \<not> (j = k \<and> off \<le> int p \<and> int p < off + sz) \<Longrightarrow>
   FLAGS (area_list s' ! j) ! p = FLAGS (area_list s ! j) ! p"
  unfolding flags_frame_def by blast

text \<open>
  For the size zero the range is empty, but the head flag is written all the same:
  \<^verbatim>\<open>make_code(1, 0)\<close> on the fresh area \<open>[0, 3]\<close> sets the flag at offset 1.
\<close>

theorem make_code_empty_range_counterexample:
  "fst (addr2area area_0_3 1) = Some (1, 0) \<and>
   \<not> flags_frame area_0_3 (snd (make_code area_0_3 1 0)) 0 1 0"
proof -
  have new: "FLAGS (area_list (snd (make_code area_0_3 1 0)) ! 0) ! 1 = 1"
    by (simp add: make_code_def addr2area_def area_0_3_def AddressSpace_def bytearray_ior_def
        py_getitem_def py_setitem_def py_pos_def put_flags_def raise_opt_def CODE_def)
  have old: "FLAGS (area_list area_0_3 ! 0) ! 1 = 0" "0 < length (area_list area_0_3)"
    "1 < length (FLAGS (area_list area_0_3 ! 0))"
    by (simp_all add: area_0_3_def AddressSpace_def)
  have "\<not> flags_frame area_0_3 (snd (make_code area_0_3 1 0)) 0 1 0"
  proof
    assume "flags_frame area_0_3 (snd (make_code area_0_3 1 0)) 0 1 0"
    from flags_frameD [OF this old(2,3)] new old(1) show False by simp
  qed
  moreover have "fst (addr2area area_0_3 1) = Some (1, 0)"
    by (simp add: addr2area_def area_0_3_def AddressSpace_def)
  ultimately show ?thesis by simp
qed

theorem flag_writers_frame_witness:
  "cache_ok two_areas \<and> fst (addr2area two_areas 1) = Some (1, 0) \<and>
   flags_frame two_areas (snd (set_flags two_areas 1 2 4 8)) 0 1 2 \<and>
   flags_frame two_areas (snd (make_undefined two_areas 1 2)) 0 1 2 \<and>
   flags_frame two_areas (snd (make_code two_areas 1 2)) 0 1 2 \<and>
   flags_frame two_areas (snd (make_data two_areas 1 2)) 0 1 2 \<and>
   FLAGS (area_list (snd (make_code two_areas 1 2)) ! 0) = [0, 1, 2, 0]"
proof -
  have a: "fst (addr2area two_areas 1) = Some (1, 0)"
    by (simp add: addr2area_def two_areas_def AddressSpace_def)
  have "FLAGS (area_list (snd (make_code two_areas 1 2)) ! 0) = [0, 1, 2, 0]"
    by (simp add: make_code_def addr2area_def two_areas_def AddressSpace_def bytearray_ior_def
        py_getitem_def py_setitem_def py_pos_def put_flags_def raise_opt_def CODE_def CODE_CONT_def)
  with flag_writers_frame [OF cache_ok_two_areas a, of 2 4 8] a cache_ok_two_areas
  show ?thesis by simp
qed

lemma ior_loop_ok:
  "0 \<le> base \<Longrightarrow> \<forall>i\<in>set is. nat (base + int i) < length flags \<Longrightarrow>
     \<exists>flags'. ior_loop flags base v is = (flags', None) \<and> length flags' = length flags \<and>
       (\<forall>p<length flags.
          flags' ! p = (if \<exists>i\<in>set is. int p = base + int i then flags ! p OR v else flags ! p))"
proof (induction "is" arbitrary: flags)
  case Nil
  then show ?case by simp
next
  case (Cons i "is")
  let ?q = "nat (base + int i)"
  let ?f1 = "flags[?q := flags ! ?q OR v]"
  from Cons.prems have q: "?q < length flags" by simp
  from Cons.prems have "\<forall>j\<in>set is. nat (base + int j) < length ?f1" by simp
  from Cons.IH [OF Cons.prems(1) this] obtain flags' where
    l: "ior_loop ?f1 base v is = (flags', None)" and len: "length flags' = length flags"
    and nth: "\<forall>p<length flags.
          flags' ! p = (if \<exists>j\<in>set is. int p = base + int j then ?f1 ! p OR v else ?f1 ! p)"
    by auto
  from Cons.prems(1) q l have "ior_loop flags base v (i # is) = (flags', None)"
    by (simp add: bytearray_ior_nonneg)
  moreover have "flags' ! p = (if \<exists>j\<in>set (i # is). int p = base + int j then flags ! p OR v else flags ! p)"
    if p: "p < length flags" for p
  proof (cases "p = ?q")
    case True
    with Cons.prems(1) have "int p = base + int i" by simp
    with nth p True show ?thesis by (simp add: or.assoc)
  next
    case False
    with Cons.prems(1) have "int p \<noteq> base + int i" by auto
    with nth p False show ?thesis by simp
  qed
  ultimately show ?case using len by blast
qed

lemma cont_scan_run:
  "0 \<le> j \<Longrightarrow> \<forall>p<m. flags ! (nat j + p) = f \<Longrightarrow> nat j + m < length flags \<Longrightarrow>
   flags ! (nat j + m) \<noteq> f \<Longrightarrow> cont_scan flags f j sz = Inr (sz + int m)"
proof (induction m arbitrary: j sz)
  case 0
  then show ?case by (subst cont_scan.simps) (simp add: py_getitem_nonneg)
next
  case (Suc m)
  from Suc.prems have here: "py_getitem flags j = Inr f"
    by (auto simp: py_getitem_nonneg dest: spec [of _ 0])
  from Suc.prems(1) have j1: "0 \<le> j + 1" "nat (j + 1) = Suc (nat j)" by simp_all
  from Suc.prems have "\<forall>p<m. flags ! (nat (j + 1) + p) = f" 
    by (auto simp: j1 dest: spec [of _ "Suc _"])
  moreover from Suc.prems have "nat (j + 1) + m < length flags" "flags ! (nat (j + 1) + m) \<noteq> f"
    by (simp_all add: j1)
  ultimately have "cont_scan flags f (j + 1) (sz + 1) = Inr (sz + 1 + int m)"
    using Suc.IH [OF j1(1)] by blast
  with here show ?case by (subst cont_scan.simps) simp
qed

lemma cont_scan_off_end:
  "0 \<le> j \<Longrightarrow> \<forall>p<m. flags ! (nat j + p) = f \<Longrightarrow> nat j + m = length flags \<Longrightarrow>
   cont_scan flags f j sz = Inl IndexError"
proof (induction m arbitrary: j sz)
  case 0
  then show ?case by (subst cont_scan.simps) (simp add: py_getitem_nonneg)
next
  case (Suc m)
  from Suc.prems have here: "py_getitem flags j = Inr f"
    by (auto simp: py_getitem_nonneg dest: spec [of _ 0])
  from Suc.prems(1) have j1: "0 \<le> j + 1" "nat (j + 1) = Suc (nat j)" by simp_all
  from Suc.prems have "\<forall>p<m. flags ! (nat (j + 1) + p) = f"
    by (auto simp: j1 dest: spec [of _ "Suc _"])
  moreover from Suc.prems have "nat (j + 1) + m = length flags"
    by (simp add: j1)
  ultimately have "cont_scan flags f (j + 1) (sz + 1) = Inl IndexError"
    using Suc.IH [OF j1(1)] by blast
  with here show ?case by (subst cont_scan.simps) simp
qed

text \<open>
  C1.  Let \<open>[a, a + n)\<close> with \<open>n \<ge> 1\<close> lie inside the area of \<open>a\<close>, with all its flags
  \<^verbatim>\<open>UNK\<close>.  Then \<^verbatim>\<open>make_code(a, n)\<close> succeeds, the flag at \<open>a\<close> is \<^verbatim>\<open>CODE\<close> and the flags of
  \<open>[a + 1, a + n)\<close> are \<^verbatim>\<open>CODE_CONT\<close>, as the claim says.  But \<^verbatim>\<open>get_unit_size(a)\<close> returns
  \<open>n\<close> only where a byte follows the unit in its area (and is not flagged \<^verbatim>\<open>CODE_CONT\<close>):
  the scan \<^verbatim>\<open>while flags[off] == f\<close> has no bound, and for every unit that ends at the
  last byte of its area it reads behind the flags and raises \<^verbatim>\<open>IndexError\<close>.
\<close>

theorem make_code_unit_size:
  assumes ok: "cache_ok s"
    and res: "fst (addr2area s addr) = Some (off, k)"
    and wf: "area_ok (area_list s ! k)"
    and n: "1 \<le> n"
    and inside: "addr + n - 1 \<le> END (area_list s ! k)"
    and unk: "\<forall>p. off \<le> int p \<and> int p < off + n \<longrightarrow> FLAGS (area_list s ! k) ! p = UNK"
  shows "fst (make_code s addr n) = Inr ()
       \<and> FLAGS (area_list (snd (make_code s addr n)) ! k) ! nat off = CODE
       \<and> (\<forall>p. off < int p \<and> int p < off + n \<longrightarrow>
             FLAGS (area_list (snd (make_code s addr n)) ! k) ! p = CODE_CONT)
       \<and> (addr + n \<le> END (area_list s ! k) \<and>
            FLAGS (area_list s ! k) ! nat (off + n) \<noteq> CODE_CONT \<longrightarrow>
            fst (get_unit_size (snd (make_code s addr n)) addr) = Inr n)
       \<and> (addr + n - 1 = END (area_list s ! k) \<longrightarrow>
            fst (get_unit_size (snd (make_code s addr n)) addr) = Inl IndexError)"
proof -
  let ?fl = "FLAGS (area_list s ! k)"
  obtain s1 where a: "addr2area s addr = (Some (off, k), s1)"
    using res by (cases "addr2area s addr") simp
  from addr2area_cases [OF ok a] obtain c where
    s1: "s1 = s\<lparr>last_area := c\<rparr>" and k: "k < length (area_list s)"
    and off: "0 \<le> off" "off = addr - START (area_list s ! k)"
    and hit: "last_area s1 = Some k"
    and ina: "in_area (area_list s ! k) addr"
    by (auto simp: in_area_def)
  from off(1) obtain q where q: "off = int q" by (rule nonneg_int_cases)
  from n have "n = int (Suc (nat (n - 1)))" by simp
  then obtain m where m: "n = int (Suc m)" ..
  have m': "nat (n - 1) = m" by (simp add: m)
  from wf off(2) inside have len: "q + Suc m \<le> length ?fl"
    by (simp add: area_ok_def q m)
  then have head: "q < length ?fl" by simp
  let ?f1 = "?fl[q := ?fl ! q OR CODE]"
  have "\<forall>i\<in>set [0..<m]. nat (int q + 1 + int i) < length ?f1"
    using len by auto
  then obtain f2 where
    loop: "ior_loop ?f1 (int q + 1) CODE_CONT [0..<m] = (f2, None)"
    and len2: "length f2 = length ?fl"
    and nth2: "\<forall>p<length ?f1. f2 ! p =
        (if \<exists>i\<in>set [0..<m]. int p = int q + 1 + int i then ?f1 ! p OR CODE_CONT
         else ?f1 ! p)"
    using ior_loop_ok [of "int q + 1" "[0..<m]" ?f1 CODE_CONT] by auto
  have mc: "make_code s addr n = (Inr (), put_flags s1 k f2)"
    using a head loop by (simp add: make_code_def s1 bytearray_ior_nonneg raise_opt_def q m')
  have fl': "FLAGS (area_list (put_flags s1 k f2) ! k) = f2"
    using k by (simp add: put_flags_def s1)
  have range: "(\<exists>i\<in>{0..<m}. int p = int q + 1 + int i) \<longleftrightarrow> q < p \<and> p < q + Suc m"
    for p
  proof
    assume "\<exists>i\<in>{0..<m}. int p = int q + 1 + int i"
    then show "q < p \<and> p < q + Suc m" by auto
  next
    assume b: "q < p \<and> p < q + Suc m"
    then have "p - q - 1 \<in> {0..<m}" by auto
    moreover from b have "int p = int q + 1 + int (p - q - 1)" by simp
    ultimately show "\<exists>i\<in>{0..<m}. int p = int q + 1 + int i" by blast
  qed
  have unk': "?fl ! p = 0" if "q \<le> p" "p < q + Suc m" for p
    using unk that by (simp add: q m UNK_def)
  have headv: "f2 ! q = CODE"
    using nth2 head unk' [of q] by (simp add: range)
  have tail: "f2 ! p = CODE_CONT" if p: "q < p" "p < q + Suc m" for p
    using nth2 p len unk' [of p] by (simp add: range)
  have a2: "addr2area (put_flags s1 k f2) addr = (Some (off, k), put_flags s1 k f2)"
    using hit k ina off(2) by (simp add: addr2area_def put_flags_def s1 in_area_def)
  have hd: "py_getitem f2 (int q) = Inr (f2 ! q)"
    using head len2 by (simp add: py_getitem_nonneg)
  have crash: "fst (get_unit_size (put_flags s1 k f2) addr) = Inl IndexError"
    if last: "addr + n - 1 = END (area_list s ! k)"
  proof -
    from wf off(2) last have eq: "q + Suc m = length ?fl" by (simp add: area_ok_def q m)
    have run: "cont_scan f2 CODE_CONT (int q + 1) 1 = Inl IndexError"
    proof (rule cont_scan_off_end [where m = m])
      show "0 \<le> int q + 1" by simp
      have e: "nat (int q + 1) = Suc q" by simp
      show "\<forall>p<m. f2 ! (nat (int q + 1) + p) = CODE_CONT"
        unfolding e using tail by simp
      show "nat (int q + 1) + m = length f2" unfolding e using eq len2 by simp
    qed
    with a2 fl' headv hd show ?thesis
      by (simp add: get_unit_size_def q m)
  qed
  have size: "fst (get_unit_size (put_flags s1 k f2) addr) = Inr n"
    if more: "addr + n \<le> END (area_list s ! k)" and nx: "?fl ! (q + Suc m) \<noteq> CODE_CONT"
  proof -
    from wf off(2) more have lt: "q + Suc m < length ?fl" by (simp add: area_ok_def q m)
    have after: "f2 ! (q + Suc m) = ?fl ! (q + Suc m)"
      using nth2 lt by (simp add: range)
    have run: "cont_scan f2 CODE_CONT (int q + 1) 1 = Inr (1 + int m)"
    proof (rule cont_scan_run)
      show "0 \<le> int q + 1" by simp
      have e: "nat (int q + 1) = Suc q" by simp
      show "\<forall>p<m. f2 ! (nat (int q + 1) + p) = CODE_CONT"
        unfolding e using tail by simp
      show "nat (int q + 1) + m < length f2" unfolding e using lt len2 by simp
      show "f2 ! (nat (int q + 1) + m) \<noteq> CODE_CONT" unfolding e using after nx by simp
    qed
    from head len2 have "py_getitem f2 (int q) = Inr (f2 ! q)" by (simp add: py_getitem_nonneg)
    with a2 fl' headv run show ?thesis
      by (simp add: get_unit_size_def q m)
  qed
  have e1: "nat off = q" and e2: "nat (off + n) = q + Suc m" by (simp_all add: q m)
  have t: "\<forall>p. off < int p \<and> int p < off + n \<longrightarrow> f2 ! p = CODE_CONT"
    using tail by (simp add: q m)
  from mc fl' headv t size crash show ?thesis by (simp add: e1 e2)
qed

theorem make_code_unit_size_witness:
  "cache_ok two_areas \<and> area_ok (area_list two_areas ! 0) \<and>
   fst (addr2area two_areas 1) = Some (1, 0) \<and>
   fst (make_code two_areas 1 2) = Inr () \<and>
   FLAGS (area_list (snd (make_code two_areas 1 2)) ! 0) ! 2 = CODE_CONT \<and>
   fst (get_unit_size (snd (make_code two_areas 1 2)) 1) = Inr 2 \<and>
   fst (addr2area two_areas 3) = Some (3, 0) \<and>
   fst (make_code two_areas 3 1) = Inr () \<and>
   fst (get_unit_size (snd (make_code two_areas 3 1)) 3) = Inl IndexError"
proof -
  have a: "fst (addr2area two_areas 1) = Some (1, 0)"
    by (simp add: addr2area_def two_areas_def AddressSpace_def)
  have wf: "area_ok (area_list two_areas ! 0)"
    by (simp add: area_ok_def two_areas_def AddressSpace_def)
  have ins: "1 + 2 - 1 \<le> END (area_list two_areas ! 0)"
    by (simp add: two_areas_def AddressSpace_def)
  have unk: "\<forall>p. 1 \<le> int p \<and> int p < 1 + 2 \<longrightarrow> FLAGS (area_list two_areas ! 0) ! p = UNK"
    by (auto simp: two_areas_def AddressSpace_def UNK_def nth_Cons')
  have more: "1 + 2 \<le> END (area_list two_areas ! 0)"
    "FLAGS (area_list two_areas ! 0) ! nat (1 + 2) \<noteq> CODE_CONT"
    by (simp_all add: two_areas_def AddressSpace_def CODE_CONT_def eval_nat_numeral)
  have a3: "fst (addr2area two_areas 3) = Some (3, 0)"
    by (simp add: addr2area_def two_areas_def AddressSpace_def)
  have ins3: "3 + 1 - 1 \<le> END (area_list two_areas ! 0)"
    and last3: "3 + 1 - 1 = END (area_list two_areas ! 0)"
    by (simp_all add: two_areas_def AddressSpace_def)
  have unk3: "\<forall>p. 3 \<le> int p \<and> int p < 3 + 1 \<longrightarrow> FLAGS (area_list two_areas ! 0) ! p = UNK"
    by (auto simp: two_areas_def AddressSpace_def UNK_def nth_Cons')
  from make_code_unit_size [OF cache_ok_two_areas a wf _ ins unk]
    make_code_unit_size [OF cache_ok_two_areas a3 wf _ ins3 unk3]
    more last3 cache_ok_two_areas a a3 wf
  show ?thesis by simp
qed

text \<open>
  The same on the fresh area \<open>[0, 3]\<close>, evaluated: after \<^verbatim>\<open>make_code(3, 1)\<close> and after
  \<^verbatim>\<open>make_code(0, 4)\<close> the call of \<^verbatim>\<open>get_unit_size\<close> raises \<^verbatim>\<open>IndexError\<close>.
\<close>

lemma get_unit_size_area_end:
  "fst (make_code area_0_3 3 1) = Inr () \<and>
   FLAGS (area_list (snd (make_code area_0_3 3 1)) ! 0) = [0, 0, 0, 1] \<and>
   fst (get_unit_size (snd (make_code area_0_3 3 1)) 3) = Inl IndexError \<and>
   fst (make_code area_0_3 0 4) = Inr () \<and>
   FLAGS (area_list (snd (make_code area_0_3 0 4)) ! 0) = [1, 2, 2, 2] \<and>
   fst (get_unit_size (snd (make_code area_0_3 0 4)) 0) = Inl IndexError"
  by code_simp

section \<open>Rendering: the example\<close>

lemma hex_of_nat_small: "n < 16 \<Longrightarrow> hex_of_nat n = [hex_digit n]"
  by (subst hex_of_nat.simps) simp

lemma scenario_5_eq:
  "scenario_5 = \<lparr>area_list =
      [\<lparr>START = 0, END = 3, PROPS = [], BYTES = [0, 0, 0, 0], FLAGS = [0, 0, 0, 0]\<rparr>],
     labels = [(1, LInt 1)], comments = [], xrefs = [(1, [(3, ''j'')])], arg_props = [],
     last_area = None\<rparr>"
  by (simp add: scenario_5_def add_xref_def make_auto_label_def area_0_3_def AddressSpace_def
      dict_get_default_def)

lemma render_scenario_5_run:
  assumes "5 \<le> n"
  shows "render_partial P (scenario_5, p) (Model 0 0) 0 0 n (-1) =
     Some (Inr (n - 4, (scenario_5\<lparr>last_area := Some 0\<rparr>, p),
       \<lparr>m_lines =
          [\<lparr>obj = Unknown 0 0, subno = 0\<rparr>, \<lparr>obj = Xref 1 3 ''j'', subno = 0\<rparr>,
           \<lparr>obj = Label 1, subno = 1\<rparr>, \<lparr>obj = Unknown 1 0, subno = 2\<rparr>,
           \<lparr>obj = Unknown 2 0, subno = 0\<rparr>, \<lparr>obj = Unknown 3 0, subno = 0\<rparr>,
           \<lparr>obj = Literal 3 ''; End of 0x0 area'', subno = 1\<rparr>],
         m_cnt = 7, m_subcnt = 2, m_last_addr = 3,
         m_addr2line =
           [((0, 0), 0), ((0, - 1), 0), ((1, 0), 1), ((1, 1), 2), ((1, 2), 3), ((1, - 1), 3),
            ((2, 0), 4), ((2, - 1), 4), ((3, 0), 5), ((3, - 1), 5), ((3, 1), 6)],
         target_addr = 0, target_subno = 0, target_addr_lineno_0 = 0,
         target_addr_lineno = 0, target_addr_lineno_real = 0\<rparr>))"
proof -
  note ev = render_unit_def xref_lines_def label_line_def unit_obj_def add_line_def py_pos_def
    py_getitem_def area_at_def Model_def get_xrefs_def get_label_def get_default_label_prefix_def get_flags_def addr2area_def
    UNK_def CODE_def DATA_def fmt_x_def fmt_08x_def hex_digit_def Let_def scenario_5_eq
    hex_of_nat_small
  from assms show ?thesis
    unfolding render_partial_def
    apply (subst render_areas.simps)
    apply (simp add: ev)
    apply (subst render_units.simps, simp add: ev)
    apply (subst render_units.simps, simp add: ev)
    apply (subst render_units.simps, simp add: ev)
    apply (subst render_units.simps, simp add: ev)
    apply (subst render_units.simps, simp add: ev)
    apply (subst render_areas.simps, simp add: ev)
    done
qed

text \<open>
  C4, amended.  For the area \<open>[0, 3]\<close> of zero bytes and \<^verbatim>\<open>UNK\<close> flags, after
  \<^verbatim>\<open>make_auto_label(1)\<close> and \<^verbatim>\<open>add_xref(3, 1, "j")\<close>, \<^verbatim>\<open>render_partial\<close> from area 0 and
  offset 0 with a budget of at least five lines returns, and the lines are, in order:
  Unknown at 0, Xref at 1 from 3 with tag j, Label at 1, Unknown at 1, Unknown at 2,
  Unknown at 3, and the literal \<open>; End of 0x0 area\<close>.  There is no start literal: the
  area a render starts in never gets one.  \<^verbatim>\<open>addr2line[(1, -1)]\<close> is 3, the line of the
  Unknown at 1.  No plug-in function is called.
\<close>

theorem render_scenario_5:
  assumes "5 \<le> n"
  shows "\<exists>n' w' m. render_partial P (scenario_5, p) (Model 0 0) 0 0 n (-1) = Some (Inr (n', w', m))
     \<and> map obj (m_lines m) =
         [Unknown 0 0, Xref 1 3 ''j'', Label 1, Unknown 1 0, Unknown 2 0, Unknown 3 0,
          Literal 3 ''; End of 0x0 area'']
     \<and> map_of (m_addr2line m) (1, -1) = Some 3
     \<and> obj (m_lines m ! 3) = Unknown 1 0"
  unfolding render_scenario_5_run [OF assms] by simp

theorem render_scenario_5_witness:
  "\<exists>n' w' m. render_partial null_processor (scenario_5, ()) (Model 0 0) 0 0 5 (-1)
       = Some (Inr (n', w', m))
     \<and> map obj (m_lines m) =
         [Unknown 0 0, Xref 1 3 ''j'', Label 1, Unknown 1 0, Unknown 2 0, Unknown 3 0,
          Literal 3 ''; End of 0x0 area'']
     \<and> map_of (m_addr2line m) (1, -1) = Some 3
     \<and> obj (m_lines m ! 3) = Unknown 1 0"
  using render_scenario_5 [of 5 null_processor "()"] by simp

text \<open>The sequence of the claim, which begins with a start literal, is not what is rendered.\<close>

theorem render_scenario_5_counterexample:
  "map_option (map_sum id (\<lambda>(n, w, m). map obj (m_lines m)))
     (render_partial null_processor (scenario_5, ()) (Model 0 0) 0 0 100 (-1))
   \<noteq> Some (Inr [Literal 0 ''; Start of 0x0 area'', Unknown 0 0, Xref 1 3 ''j'', Label 1,
                 Unknown 1 0, Unknown 2 0, Unknown 3 0, Literal 3 ''; End of 0x0 area''])"
  by (simp add: render_scenario_5_run)

section \<open>Analysis\<close>

lemma progress_calls_step:
  assumes "0 \<le> c"
  shows "progress_calls (c + 1) =
     (if (c + 1) mod 1000 = 0 then progress_calls c @ [c + 1] else progress_calls c)"
proof -
  from assms obtain n where n: "c = int n" by (rule nonneg_int_cases)
  define d where "d = n div 1000"
  have c0: "nat c = n" and c1: "nat (c + 1) = Suc n" by (simp_all add: n)
  have "c + 1 = int (Suc n)" by (simp add: n)
  then have m: "(c + 1) mod 1000 = 0 \<longleftrightarrow> Suc n mod 1000 = 0"
    by (metis of_nat_mod of_nat_numeral of_nat_eq_0_iff)
  have pc: "progress_calls c = map (\<lambda>k. 1000 * int k) [1..<Suc d]"
    by (simp only: progress_calls_def c0 d_def)
  have pc1: "progress_calls (c + 1) = map (\<lambda>k. 1000 * int k) [1..<Suc (Suc n div 1000)]"
    by (simp only: progress_calls_def c1)
  show ?thesis
  proof (cases "Suc n mod 1000 = 0")
    case True
    then have e: "Suc n div 1000 = Suc d" by (simp add: div_Suc d_def)
    from True have "1000 * (Suc n div 1000) = Suc n" by (simp add: mod_eq_0_iff_dvd)
    then have "int (1000 * Suc d) = int (Suc n)" by (simp only: e)
    then have last: "1000 * int (Suc d) = c + 1" by (simp add: n)
    have "[1..<Suc (Suc d)] = [1..<Suc d] @ [Suc d]" by simp
    then have "progress_calls (c + 1) = progress_calls c @ [1000 * int (Suc d)]"
      by (simp only: pc pc1 e map_append list.map)
    with last True m show ?thesis by simp
  next
    case False
    then have "Suc n div 1000 = d" by (simp add: div_Suc d_def)
    then have "progress_calls (c + 1) = progress_calls c" by (simp only: pc pc1)
    with False m show ?thesis by simp
  qed
qed

section \<open>Labels\<close>

lemma get_flags_pure:
  assumes "non_overlapping (area_list s)" and "cache_ok s" and "flags_at (area_list s) n = Some fl"
  shows "\<exists>c. get_flags s n = (Inr fl, s\<lparr>last_area := c\<rparr>) \<and> cache_ok (s\<lparr>last_area := c\<rparr>)"
proof -
  from assms(3) obtain off k where sc: "scan_areas (area_list s) 0 n = Some (off, k)"
    and g: "py_getitem (FLAGS (area_list s ! k)) off = Inr fl"
    by (auto simp: flags_at_def split: option.splits sum.splits)
  from addr2area_pure [OF assms(1,2), of n] sc obtain c where
    a: "addr2area s n = (Some (off, k), s\<lparr>last_area := c\<rparr>)" and ok: "cache_ok (s\<lparr>last_area := c\<rparr>)"
    by (cases "addr2area s n") auto
  from a g have "get_flags s n = (Inr fl, s\<lparr>last_area := c\<rparr>)"
    by (simp add: get_flags_def)
  with ok show ?thesis by blast
qed

lemma get_default_label_pure:
  assumes "non_overlapping (area_list s)" and "cache_ok s"
    and "label_text (area_list s) (LInt n) = Some d"
  shows "\<exists>c. get_default_label s n = (Inr d, s\<lparr>last_area := c\<rparr>) \<and> cache_ok (s\<lparr>last_area := c\<rparr>)"
proof -
  from assms(3) obtain fl where fl: "flags_at (area_list s) n = Some fl"
    and d: "d = (if fl = CODE then ''loc_'' else if fl AND DATA \<noteq> 0 then ''dat_'' else ''unk_'') @ fmt_08x n"
    by (auto simp: label_text_def split: option.splits)
  from get_flags_pure [OF assms(1,2) fl] obtain c where
    "get_flags s n = (Inr fl, s\<lparr>last_area := c\<rparr>)" "cache_ok (s\<lparr>last_area := c\<rparr>)" by blast
  with d show ?thesis
    by (auto simp: get_default_label_def get_default_label_prefix_def)
qed

lemma resolve_loop_finds:
  assumes "non_overlapping (area_list s)" and "cache_ok s"
    and "\<forall>(ea, l) \<in> set items. label_text (area_list s) l \<noteq> None"
    and "distinct (map (\<lambda>(ea, l). label_text (area_list s) l) items)"
    and "(a, l) \<in> set items" and "label_text (area_list s) l = Some str"
  shows "\<exists>c. resolve_loop s items str = (Inr (Some a), s\<lparr>last_area := c\<rparr>)"
  using assms
proof (induction items arbitrary: s)
  case Nil
  then show ?case by simp
next
  case (Cons x items)
  obtain ea l0 where x: "x = (ea, l0)" by (cases x)
  from Cons.prems(3) x obtain d where d: "label_text (area_list s) l0 = Some d" by auto
  show ?case
  proof (cases "d = str")
    case True
    have "ea = a"
    proof (rule ccontr)
      assume "ea \<noteq> a"
      with Cons.prems(5) x have "(a, l) \<in> set items" by auto
      then have "label_text (area_list s) l \<in> set (map (\<lambda>(ea, l). label_text (area_list s) l) items)"
        by force
      with Cons.prems(4,6) x d True show False by simp
    qed
    show ?thesis
    proof (cases l0)
      case (LStr s0)
      with d True \<open>ea = a\<close> cache_same [of s] show ?thesis
        by (simp add: x label_text_def)
    next
      case (LInt n)
      from get_default_label_pure [OF Cons.prems(1,2) d [unfolded LInt]] True \<open>ea = a\<close> LInt
      show ?thesis by (auto simp: x)
    qed
  next
    case False
    with Cons.prems(5,6) x d have mem: "(a, l) \<in> set items" by auto
    have rest: "\<exists>c. resolve_loop s' items str = (Inr (Some a), s'\<lparr>last_area := c\<rparr>)"
      if "area_list s' = area_list s" "cache_ok s'" for s'
      using Cons.IH [of s'] Cons.prems that mem by (simp add: x)
    show ?thesis
    proof (cases l0)
      case (LStr s0)
      with d False rest [of s] Cons.prems(2) show ?thesis
        by (simp add: x label_text_def)
    next
      case (LInt n)
      from get_default_label_pure [OF Cons.prems(1,2) d [unfolded LInt]] obtain c where
        g: "get_default_label s n = (Inr d, s\<lparr>last_area := c\<rparr>)" and ok: "cache_ok (s\<lparr>last_area := c\<rparr>)"
        by blast
      from rest [of "s\<lparr>last_area := c\<rparr>"] ok obtain c' where
        "resolve_loop (s\<lparr>last_area := c\<rparr>) items str = (Inr (Some a), s\<lparr>last_area := c'\<rparr>)"
        by auto
      with g False LInt show ?thesis by (auto simp: x)
    qed
  qed
qed

text \<open>
  C8, amended.  Let the areas not overlap, let every auto-labelled address lie in an area,
  and let no two entries of the label table have the same string.  Then for every address
  \<open>a\<close> with an entry in the table, of either kind, \<^verbatim>\<open>get_label(a)\<close> returns a string and
  \<^verbatim>\<open>resolve_label\<close> of that string returns \<open>a\<close>.
\<close>

theorem resolve_label_get_label:
  assumes "non_overlapping (area_list s)" and "cache_ok s" and "labels_ok s"
    and "map_of (labels s) a = Some l"
  shows "\<exists>str s1 s2. get_label s a = (Inr (Some str), s1) \<and>
           resolve_label s1 str = (Inr (Some a), s2)"
proof -
  from assms(4) have mem: "(a, l) \<in> set (labels s)" by (rule map_of_SomeD)
  with assms(3) obtain str where str: "label_text (area_list s) l = Some str"
    and auto_l: "\<And>n. l = LInt n \<Longrightarrow> n = a"
    by (auto simp: labels_ok_def)
  have "\<exists>c. get_label s a = (Inr (Some str), s\<lparr>last_area := c\<rparr>) \<and> cache_ok (s\<lparr>last_area := c\<rparr>)"
  proof (cases l)
    case (LStr s0)
    with str assms(2,4) cache_same [of s] show ?thesis
      by (auto simp: get_label_def label_text_def)
  next
    case (LInt n)
    with auto_l have n: "n = a" by simp
    from str LInt obtain fl where fl: "flags_at (area_list s) n = Some fl"
      and d: "str = (if fl = CODE then ''loc_'' else if fl AND DATA \<noteq> 0 then ''dat_'' else ''unk_'') @ fmt_08x n"
      by (auto simp: label_text_def split: option.splits)
    from get_flags_pure [OF assms(1,2) fl] obtain c where
      "get_flags s n = (Inr fl, s\<lparr>last_area := c\<rparr>)" "cache_ok (s\<lparr>last_area := c\<rparr>)" by blast
    with d n LInt assms(4) show ?thesis
      by (auto simp: get_label_def get_default_label_prefix_def)
  qed
  then obtain c where g: "get_label s a = (Inr (Some str), s\<lparr>last_area := c\<rparr>)"
    and ok: "cache_ok (s\<lparr>last_area := c\<rparr>)" by blast
  from assms(3) have "\<forall>(ea, l) \<in> set (labels s). label_text (area_list s) l \<noteq> None"
    "distinct (map (\<lambda>(ea, l). label_text (area_list s) l) (labels s))"
    by (auto simp: labels_ok_def)
  with resolve_loop_finds [of "s\<lparr>last_area := c\<rparr>" "labels s" a l str] assms(1) ok mem str
  obtain c' where "resolve_loop (s\<lparr>last_area := c\<rparr>) (labels s) str = (Inr (Some a), s\<lparr>last_area := c'\<rparr>)"
    by auto
  with g show ?thesis by (auto simp: resolve_label_def)
qed

lemma two_labels_eq:
  "two_labels = \<lparr>area_list =
      [\<lparr>START = 0, END = 3, PROPS = [], BYTES = [0, 0, 0, 0], FLAGS = [0, 0, 0, 0]\<rparr>],
     labels = [(1, LInt 1), (2, LStr ''foo'')], comments = [], xrefs = [], arg_props = [],
     last_area = None\<rparr>"
  by (simp add: two_labels_def set_label_def make_auto_label_def area_0_3_def AddressSpace_def)

lemma same_labels_eq:
  "same_labels = \<lparr>area_list =
      [\<lparr>START = 0, END = 3, PROPS = [], BYTES = [0, 0, 0, 0], FLAGS = [0, 0, 0, 0]\<rparr>],
     labels = [(1, LStr ''foo''), (2, LStr ''foo'')], comments = [], xrefs = [], arg_props = [],
     last_area = None\<rparr>"
  by (simp add: same_labels_def set_label_def area_0_3_def AddressSpace_def)

lemma fmt_08x_1: "fmt_08x 1 = ''00000001''"
  by (simp add: fmt_08x_def hex_of_nat_small hex_digit_def eval_nat_numeral)

theorem resolve_label_get_label_witness:
  "non_overlapping (area_list two_labels) \<and> cache_ok two_labels \<and> labels_ok two_labels \<and>
   map_of (labels two_labels) 1 = Some (LInt 1) \<and>
   fst (get_label two_labels 1) = Inr (Some ''unk_00000001'') \<and>
   fst (resolve_label (snd (get_label two_labels 1)) ''unk_00000001'') = Inr (Some 1)"
proof -
  have no: "non_overlapping (area_list two_labels)"
    by (simp add: non_overlapping_def two_labels_eq)
  have ok: "cache_ok two_labels"
    by (simp add: cache_ok_def two_labels_eq)
  have lo: "labels_ok two_labels"
    by (simp add: labels_ok_def two_labels_eq label_text_def flags_at_def py_getitem_def
        py_pos_def fmt_08x_1 CODE_def DATA_def)
  have en: "map_of (labels two_labels) 1 = Some (LInt 1)"
    by (simp add: two_labels_eq)
  have g: "get_label two_labels 1 = (Inr (Some ''unk_00000001''), two_labels\<lparr>last_area := Some 0\<rparr>)"
    by (simp add: get_label_def get_default_label_prefix_def get_flags_def addr2area_def
        two_labels_eq py_getitem_def py_pos_def fmt_08x_1 CODE_def DATA_def)
  from resolve_label_get_label [OF no ok lo en] g no ok lo en show ?thesis
    by auto
qed

text \<open>
  \<^verbatim>\<open>set_label\<close> stores any string: after \<^verbatim>\<open>set_label(1, "foo")\<close> and
  \<^verbatim>\<open>set_label(2, "foo")\<close> the label of 2 resolves to 1, the first entry with that string.
\<close>

theorem resolve_label_get_label_counterexample:
  "map_of (labels same_labels) 2 = Some (LStr ''foo'') \<and>
   fst (get_label same_labels 2) = Inr (Some ''foo'') \<and>
   fst (resolve_label (snd (get_label same_labels 2)) ''foo'') = Inr (Some 1)"
  by (simp add: same_labels_eq get_label_def resolve_label_def)

section \<open>Rendering: the line budget\<close>














end
